theory Spec2Isabelle
  imports Main
begin

section \<open>Status messages and the progress pattern\<close>

text \<open>
  The client reads progress out of a free-text status message with the regular expression
  \<^verbatim>\<open>/Progress (\d+)%: (.+)/\<close>, applied by \<^verbatim>\<open>String.prototype.match\<close> in the polling tick of
  the project page (\<^verbatim>\<open>pollForUpdates\<close>), in its first fetch, and in both effects of the
  dashboard. The expression has no anchors and no flags, so the engine tries every start
  position from left to right and the first position that matches wins.

  A JavaScript string is a sequence of 16-bit code units, and without the \<^verbatim>\<open>u\<close> flag the
  expression works on code units. A message is therefore the list of its code units, each
  a number; \<open>js\<close> turns an ASCII literal of the source into that form. Texts that never
  meet the pattern (names, console lines, addresses) stay of type \<^typ>\<open>string\<close>.
\<close>

type_synonym jsstring = "nat list"

definition js :: "string \<Rightarrow> jsstring" where
  "js t = map of_char t"

text \<open>
  \<^verbatim>\<open>\d\<close> is an ASCII digit. \<^verbatim>\<open>.\<close> takes every code unit but the four line terminators:
  line feed, carriage return, line separator and paragraph separator.
\<close>

definition isDigit :: "nat \<Rightarrow> bool" where
  "isDigit c = (48 \<le> c \<and> c \<le> 57)"

definition lineTerminator :: "nat \<Rightarrow> bool" where
  "lineTerminator c = (c = 0x0A \<or> c = 0x0D \<or> c = 0x2028 \<or> c = 0x2029)"

text \<open>A literal piece of the pattern: the rest of the input after it, when the input starts with it.\<close>

fun literal :: "jsstring \<Rightarrow> jsstring \<Rightarrow> jsstring option" where
  "literal [] s = Some s"
| "literal (p # ps) [] = None"
| "literal (p # ps) (c # cs) = (if p = c then literal ps cs else None)"

text \<open>
  The pattern tried at one start position. \<^verbatim>\<open>\d+\<close> is greedy; giving digits back never
  helps, because the next piece is the literal \<^verbatim>\<open>%\<close>, so the longest run of digits is the only
  candidate. \<^verbatim>\<open>.+\<close> is greedy and ends the pattern, so it takes every code unit up to the
  first line terminator, and needs at least one. The result is the pair of capture groups.
\<close>

definition matchHere :: "jsstring \<Rightarrow> (jsstring \<times> jsstring) option" where
  "matchHere s =
     (case literal (js ''Progress '') s of
        None \<Rightarrow> None
      | Some r \<Rightarrow>
          (let ds = takeWhile isDigit r in
           if ds = [] then None
           else (case literal (js ''%: '') (dropWhile isDigit r) of
                   None \<Rightarrow> None
                 | Some r' \<Rightarrow>
                     (let g = takeWhile (\<lambda>c. \<not> lineTerminator c) r' in
                      if g = [] then None else Some (ds, g)))))"

text \<open>\<^verbatim>\<open>message.match(/Progress (\d+)%: (.+)/)\<close>: the leftmost start position that matches.\<close>

fun progressMatch :: "jsstring \<Rightarrow> (jsstring \<times> jsstring) option" where
  "progressMatch [] = None"
| "progressMatch (c # cs) =
     (case matchHere (c # cs) of
        Some m \<Rightarrow> Some m
      | None \<Rightarrow> progressMatch cs)"

text \<open>
  \<^verbatim>\<open>parseInt\<close> on the first capture group, which is a non-empty run of ASCII digits. The
  result is a JavaScript number, a double: the decimal value of the run when a double
  holds it, which is so for every value below \<open>2^53\<close> and so for every run of at most
  fifteen digits, and otherwise the nearest value with a significand of 53 bits, a tie
  going to the even significand. (A value too large for a double becomes
  \<^verbatim>\<open>Infinity\<close>, and beyond twenty digits an engine may approximate; the model has neither,
  and what is proved about the value of \<open>parseInt\<close> is proved for runs of at most fifteen
  digits.)
\<close>

definition digitValue :: "nat \<Rightarrow> nat" where
  "digitValue c = c - 48"

definition decimal :: "jsstring \<Rightarrow> nat" where
  "decimal ds = foldl (\<lambda>n c. 10 * n + digitValue c) 0 ds"

fun bitLength :: "nat \<Rightarrow> nat" where
  "bitLength n = (if n = 0 then 0 else Suc (bitLength (n div 2)))"

declare bitLength.simps [simp del]

definition toDouble :: "nat \<Rightarrow> nat" where
  "toDouble n =
     (if n < 2 ^ 53 then n
      else (let e = bitLength n - 53;
                q = n div 2 ^ e;
                r = n mod 2 ^ e
            in if 2 ^ e < 2 * r \<or> (2 * r = 2 ^ e \<and> odd q) then (q + 1) * 2 ^ e else q * 2 ^ e))"

definition parseInt :: "jsstring \<Rightarrow> nat" where
  "parseInt ds = toDouble (decimal ds)"

text \<open>
  The object literal \<^verbatim>\<open>{progress: parseInt(progressMatch[1]), step: progressMatch[2]}\<close> that the
  dashboard stores on a match, as a pair; the project page computes the same two values as
  \<^verbatim>\<open>newProgress\<close> and \<^verbatim>\<open>newStep\<close>.
\<close>

definition progressEntry :: "jsstring \<Rightarrow> (nat \<times> jsstring) option" where
  "progressEntry m =
     (case progressMatch m of
        None \<Rightarrow> None
      | Some (ds, g) \<Rightarrow> Some (parseInt ds, g))"

text \<open>
  What "trimmed of surrounding whitespace" means, for comparison with the capture group:
  \<^verbatim>\<open>String.prototype.trim\<close>, which removes white space and line terminators at both ends.
\<close>

definition whiteSpace :: "nat \<Rightarrow> bool" where
  "whiteSpace c =
     (c \<in> set [0x09, 0x0A, 0x0B, 0x0C, 0x0D, 0x20, 0xA0, 0x1680, 0x2028, 0x2029, 0x202F,
                0x205F, 0x3000, 0xFEFF]
      \<or> (0x2000 \<le> c \<and> c \<le> 0x200A))"

definition trimmed :: "jsstring \<Rightarrow> jsstring" where
  "trimmed t = rev (dropWhile whiteSpace (rev (dropWhile whiteSpace t)))"

section \<open>Projects, promises and the environment\<close>

text \<open>
  \<^verbatim>\<open>interface Project\<close> of the project slice: the fields the polling code reads. The status is
  the union type \<^verbatim>\<open>'pending' | 'processing' | 'completed' | 'failed'\<close>; the two messages are
  optional strings (\<^verbatim>\<open>status_message\<close> is read by the project page, \<^verbatim>\<open>error_message\<close> by the
  dashboard).
\<close>

datatype status = pending | processing | completed | failed

record project =
  project_id :: nat
  project_name :: string
  project_status :: status
  status_message :: "jsstring option"
  error_message :: "jsstring option"

text \<open>An optional string in a condition: absent and empty are both false.\<close>

definition truthy :: "'a list option \<Rightarrow> bool" where
  "truthy m = (case m of None \<Rightarrow> False | Some t \<Rightarrow> t \<noteq> [])"

text \<open>
  A settled promise of the API client: rejected with an error (\<open>Inl\<close>) or fulfilled with
  a value (\<open>Inr\<close>). Of the error, the code reads \<^verbatim>\<open>error.response?.status\<close>,
  \<^verbatim>\<open>error.response?.data?.detail\<close> and \<^verbatim>\<open>error.message\<close>.
\<close>

record apiError =
  response_status :: "nat option"
  response_detail :: "string option"
  error_text :: "string option"

type_synonym 'a promise = "apiError + 'a"

text \<open>
  What both pages share: the project slice of the Redux store (\<^verbatim>\<open>projects\<close>,
  \<^verbatim>\<open>currentProject\<close>), the interval timers that are live in the window, the lines written by
  \<^verbatim>\<open>console.error\<close>, the \<^verbatim>\<open>token\<close> entry of \<^verbatim>\<open>localStorage\<close> and \<^verbatim>\<open>window.location.href\<close>.
  (\<^verbatim>\<open>console.log\<close> output is not recorded.)
\<close>

record env =
  projects :: "project list"
  currentProject :: "project option"
  intervals :: "nat list"
  nextInterval :: nat
  consoleErrors :: "string list"
  token :: "string option"
  href :: string

text \<open>\<^verbatim>\<open>setInterval\<close> hands out a handle that no live timer has; \<^verbatim>\<open>clearInterval\<close> ends a timer.\<close>

definition setInterval :: "'a env_scheme \<Rightarrow> nat \<times> 'a env_scheme" where
  "setInterval s =
     (nextInterval s,
      s\<lparr>intervals := intervals s @ [nextInterval s], nextInterval := Suc (nextInterval s)\<rparr>)"

definition clearInterval :: "nat \<Rightarrow> 'a env_scheme \<Rightarrow> 'a env_scheme" where
  "clearInterval t s = s\<lparr>intervals := removeAll t (intervals s)\<rparr>"

text \<open>The handles in use are below the next one to be handed out, and none is live twice.\<close>

definition timersFresh :: "'a env_scheme \<Rightarrow> bool" where
  "timersFresh s = (distinct (intervals s) \<and> list_all (\<lambda>t. t < nextInterval s) (intervals s))"

text \<open>The reducer \<^verbatim>\<open>deleteProject\<close> of the project slice.\<close>

definition deleteProject :: "nat \<Rightarrow> 'a env_scheme \<Rightarrow> 'a env_scheme" where
  "deleteProject i s =
     (let s1 = s\<lparr>projects := filter (\<lambda>p. project_id p \<noteq> i) (projects s)\<rparr>
      in if map_option project_id (currentProject s1) = Some i
         then s1\<lparr>currentProject := None\<rparr> else s1)"

text \<open>
  An assignment to \<^verbatim>\<open>window.location.href\<close> starts a navigation: the window loads the
  document at the new address, and the interval timers of the page that made the
  assignment end with that page.
\<close>

definition assignLocation :: "string \<Rightarrow> 'a env_scheme \<Rightarrow> 'a env_scheme" where
  "assignLocation url s = s\<lparr>href := url, intervals := []\<rparr>"

text \<open>
  The response interceptor of the API client. A fulfilled response passes through. On a
  rejection with HTTP status 401 the token is removed from the storage and the window is
  sent to \<^verbatim>\<open>/login\<close>; the rejection is passed on in every case.
\<close>

definition responseInterceptor :: "'r promise \<Rightarrow> 'a env_scheme \<Rightarrow> 'r promise \<times> 'a env_scheme" where
  "responseInterceptor r s =
     (case r of
        Inr v \<Rightarrow> (Inr v, s)
      | Inl e \<Rightarrow>
          (Inl e,
           if response_status e = Some 401
           then assignLocation ''/login'' (s\<lparr>token := None\<rparr>) else s))"

section \<open>The project page\<close>

text \<open>
  The component state of \<^verbatim>\<open>ProjectDetail\<close> (its \<^verbatim>\<open>useState\<close> cells and the ref
  \<^verbatim>\<open>pollingIntervalRef\<close>), the route parameter \<^verbatim>\<open>id\<close> as a number, and the route asked of the
  router by \<^verbatim>\<open>navigate\<close>. In \<^verbatim>\<open>pages/ProjectDetail.tsx\<close> the handle of the timer is the state
  cell \<^verbatim>\<open>pollingInterval\<close> instead of the ref; the same field stands for it.
\<close>

record detail = env +
  routeId :: nat
  loading :: bool
  error :: "string option"
  deleting :: bool
  status :: "status option"
  progress :: nat
  currentStep :: jsstring
  processing_flag :: bool
  showDeleteDialog :: bool
  deleteSuccess :: bool
  deletedProjectName :: string
  localProject :: "project option"
  pollingIntervalRef :: "nat option"
  navigateTo :: "string option"

text \<open>
  A function defined in the body of the component sees the state of the render that
  created it. Of that render, the polling callback reads \<^verbatim>\<open>status\<close>, \<^verbatim>\<open>progress\<close> and
  \<^verbatim>\<open>currentStep\<close>.
\<close>

record render =
  seen_status :: "status option"
  seen_progress :: nat
  seen_currentStep :: jsstring

definition renderOf :: "detail \<Rightarrow> render" where
  "renderOf s = \<lparr>seen_status = status s, seen_progress = progress s, seen_currentStep = currentStep s\<rparr>"

text \<open>The callback handed to \<^verbatim>\<open>setInterval\<close>: its own handle \<^verbatim>\<open>interval\<close> and the render it sees.\<close>

record closure =
  interval :: nat
  seen :: render

text \<open>What the page shows of the job: the three cells that the polling tick writes.\<close>

definition view :: "detail \<Rightarrow> status option \<times> nat \<times> jsstring" where
  "view s = (status s, progress s, currentStep s)"

text \<open>
  The \<^verbatim>\<open>try\<close> block of the polling callback in \<^verbatim>\<open>unnamed/part_001\<close>, after
  \<^verbatim>\<open>getProject\<close> has been fulfilled with \<open>up\<close>, is three statements in a row. Each guard
  \<^verbatim>\<open>!== status\<close>, \<^verbatim>\<open>!== progress\<close>, \<^verbatim>\<open>!== currentStep\<close> compares with the value seen by the
  callback.

  First: "only update status if it has changed".
\<close>

definition statusUpdate :: "closure \<Rightarrow> project \<Rightarrow> detail \<Rightarrow> detail" where
  "statusUpdate cl up s =
     (if Some (project_status up) \<noteq> seen_status (seen cl)
      then s\<lparr>status := Some (project_status up)\<rparr> else s)"

text \<open>Second: "update progress and step from status message".\<close>

definition progressUpdate :: "closure \<Rightarrow> project \<Rightarrow> detail \<Rightarrow> detail" where
  "progressUpdate cl up s =
     (if project_status up = processing \<and> truthy (status_message up) then
        (case progressMatch (the (status_message up)) of
           Some (ds, g) \<Rightarrow>
             (let newProgress = parseInt ds;
                  newStep = g;
                  s' = (if newProgress \<noteq> seen_progress (seen cl)
                        then s\<lparr>progress := newProgress\<rparr> else s)
              in if newStep \<noteq> seen_currentStep (seen cl)
                 then s'\<lparr>currentStep := newStep\<rparr> else s')
         | None \<Rightarrow>
             (if the (status_message up) \<noteq> seen_currentStep (seen cl)
              then s\<lparr>currentStep := the (status_message up)\<rparr> else s))
      else s)"

text \<open>
  Third: "stop polling if processing is complete". The timer is cleared and the stored
  handle reset, then the cells of the terminal status are written.
\<close>

definition stopIfComplete :: "closure \<Rightarrow> project \<Rightarrow> detail \<Rightarrow> detail" where
  "stopIfComplete cl up s =
     (if project_status up = completed \<or> project_status up = failed then
        (let s' = (clearInterval (interval cl) s)\<lparr>pollingIntervalRef := None\<rparr>
         in if project_status up = completed
            then s'\<lparr>progress := 100, currentStep := js ''Processing completed successfully!''\<rparr>
            else s'\<lparr>currentStep := (if truthy (status_message up)
                                      then the (status_message up)
                                      else js ''Processing failed'')\<rparr>)
      else s)"

definition tickBody :: "closure \<Rightarrow> project \<Rightarrow> detail \<Rightarrow> detail" where
  "tickBody cl up s = stopIfComplete cl up (progressUpdate cl up (statusUpdate cl up s))"

text \<open>
  The same block in \<^verbatim>\<open>pages/ProjectDetail.tsx\<close>: the first two statements write their
  cells without a comparison, the third is the same.
\<close>

definition statusUpdate_pd :: "project \<Rightarrow> detail \<Rightarrow> detail" where
  "statusUpdate_pd up s = s\<lparr>status := Some (project_status up)\<rparr>"

definition progressUpdate_pd :: "project \<Rightarrow> detail \<Rightarrow> detail" where
  "progressUpdate_pd up s =
     (if project_status up = processing \<and> truthy (status_message up) then
        (case progressMatch (the (status_message up)) of
           Some (ds, g) \<Rightarrow> s\<lparr>progress := parseInt ds, currentStep := g\<rparr>
         | None \<Rightarrow> s\<lparr>currentStep := the (status_message up)\<rparr>)
      else s)"

definition tickBody_pd :: "closure \<Rightarrow> project \<Rightarrow> detail \<Rightarrow> detail" where
  "tickBody_pd cl up s = stopIfComplete cl up (progressUpdate_pd up (statusUpdate_pd up s))"

text \<open>
  One firing of the callback, given how \<^verbatim>\<open>getProject\<close> settled. A rejection leaves the
  \<^verbatim>\<open>try\<close> block at the \<^verbatim>\<open>await\<close>; the \<^verbatim>\<open>catch\<close> block writes one line to the console and
  does nothing else. The callback itself returns normally in both cases.
\<close>

definition tickTry :: "closure \<Rightarrow> project promise \<Rightarrow> detail \<Rightarrow> apiError + detail" where
  "tickTry cl r s = (case r of Inl e \<Rightarrow> Inl e | Inr up \<Rightarrow> Inr (tickBody cl up s))"

definition tickCatch :: "apiError \<Rightarrow> detail \<Rightarrow> detail" where
  "tickCatch e s = s\<lparr>consoleErrors := consoleErrors s @ [''Error polling for updates:'']\<rparr>"

definition pollTick :: "closure \<Rightarrow> project promise \<Rightarrow> detail \<Rightarrow> detail" where
  "pollTick cl r s = (case tickTry cl r s of Inl e \<Rightarrow> tickCatch e s | Inr s' \<Rightarrow> s')"

definition pollTick_pd :: "closure \<Rightarrow> project promise \<Rightarrow> detail \<Rightarrow> detail" where
  "pollTick_pd cl r s = (case r of Inl e \<Rightarrow> tickCatch e s | Inr up \<Rightarrow> tickBody_pd cl up s)"

text \<open>A firing whose request goes through the API client, interceptor included.\<close>

definition pollTickVia :: "closure \<Rightarrow> project promise \<Rightarrow> detail \<Rightarrow> detail" where
  "pollTickVia cl raw s = (case responseInterceptor raw s of (r, s') \<Rightarrow> pollTick cl r s')"

definition pollTickVia_pd :: "closure \<Rightarrow> project promise \<Rightarrow> detail \<Rightarrow> detail" where
  "pollTickVia_pd cl raw s = (case responseInterceptor raw s of (r, s') \<Rightarrow> pollTick_pd cl r s')"

text \<open>The timer fires only while its handle is live.\<close>

definition fires :: "closure \<Rightarrow> 'a env_scheme \<Rightarrow> bool" where
  "fires cl s = (interval cl \<in> set (intervals s))"

text \<open>
  \<^verbatim>\<open>pollForUpdates\<close>: a new interval timer whose callback sees the render \<open>rnd\<close> in which
  this \<^verbatim>\<open>pollForUpdates\<close> was defined; the handle is stored and returned. Both versions of
  the page do this without looking at the handle already stored.
\<close>

definition pollForUpdates :: "render \<Rightarrow> detail \<Rightarrow> closure \<times> detail" where
  "pollForUpdates rnd s =
     (case setInterval s of
        (t, s') \<Rightarrow> (\<lparr>interval = t, seen = rnd\<rparr>, s'\<lparr>pollingIntervalRef := Some t\<rparr>))"

text \<open>\<^verbatim>\<open>localProject || project\<close>, where \<^verbatim>\<open>project\<close> is the store's entry for the route's id.\<close>

definition projectToDelete :: "detail \<Rightarrow> project option" where
  "projectToDelete s =
     (case localProject s of
        Some p \<Rightarrow> Some p
      | None \<Rightarrow> find (\<lambda>p. project_id p = routeId s) (projects s))"

text \<open>
  \<^verbatim>\<open>handleStartProcessing\<close> of \<^verbatim>\<open>unnamed/part_001\<close>, given how \<^verbatim>\<open>startProcessing\<close> settled.
  The handler belongs to the render of the state it is clicked in, so the
  \<^verbatim>\<open>pollForUpdates\<close> that its timeout calls sees that render, not the three cells the handler
  has just written. (The one-second delay before the call is not modelled.)
\<close>

definition handleStartProcessing :: "unit promise \<Rightarrow> detail \<Rightarrow> closure option \<times> detail" where
  "handleStartProcessing r s =
     (case projectToDelete s of
        None \<Rightarrow> (None, s)
      | Some p \<Rightarrow>
          (case r of
             Inr u \<Rightarrow>
               (case pollForUpdates (renderOf s)
                       (s\<lparr>status := Some processing, progress := 0,
                          currentStep := js ''Starting Wav2Lip processing...''\<rparr>) of
                  (cl, s') \<Rightarrow> (Some cl, s'\<lparr>processing_flag := False\<rparr>))
           | Inl e \<Rightarrow>
               (None, s\<lparr>consoleErrors := consoleErrors s @ [''Error starting processing:''],
                         error := Some ''Failed to start processing'',
                         processing_flag := False\<rparr>)))"

text \<open>
  \<^verbatim>\<open>handleDelete\<close> of \<^verbatim>\<open>unnamed/part_001\<close>, given how the delete request settled. The job
  leaves the store only when the request has succeeded. (\<^verbatim>\<open>projectService.deleteProject\<close>
  writes two console lines of its own on a failure.)
\<close>

definition handleDelete :: "unit promise \<Rightarrow> detail \<Rightarrow> detail" where
  "handleDelete r s =
     (case projectToDelete s of
        None \<Rightarrow> s\<lparr>consoleErrors := consoleErrors s @ [''No project to delete''],
                   error := Some ''No project to delete''\<rparr>
      | Some p \<Rightarrow>
          (let s1 = s\<lparr>deleting := True, error := None, deleteSuccess := True,
                      deletedProjectName := project_name p\<rparr>
           in case r of
                Inr u \<Rightarrow>
                  (deleteProject (project_id p) s1)
                    \<lparr>showDeleteDialog := False, navigateTo := Some ''/dashboard'', deleting := False\<rparr>
              | Inl e \<Rightarrow>
                  s1\<lparr>consoleErrors := consoleErrors s1 @
                        [''Delete project error:'', ''Error response:'', ''Error deleting project:''],
                     deleteSuccess := False, deletedProjectName := [],
                     error := Some (if truthy (response_detail e) then the (response_detail e)
                                    else if truthy (error_text e) then the (error_text e)
                                    else ''Failed to delete project''),
                     deleting := False\<rparr>))"

text \<open>A page just mounted on the route of project \<open>i\<close>: the initial values of its cells.\<close>

definition mounted :: "nat \<Rightarrow> detail" where
  "mounted i =
     \<lparr>projects = [], currentProject = None, intervals = [], nextInterval = 1, consoleErrors = [],
      token = Some ''t'', href = ''/projects'',
      routeId = i, loading = True, error = None, deleting = False, status = None, progress = 0,
      currentStep = [], processing_flag = False, showDeleteDialog = False, deleteSuccess = False,
      deletedProjectName = [], localProject = None, pollingIntervalRef = None, navigateTo = None\<rparr>"

text \<open>
  The ticks of one callback, one after the other, counting those that change what the page
  shows: React renders the component again when a state cell receives a value that differs
  from the one it holds, and not otherwise.
\<close>

definition rerenders :: "closure \<Rightarrow> project \<Rightarrow> detail \<Rightarrow> bool" where
  "rerenders cl up s = (view (tickBody cl up s) \<noteq> view s)"

fun renders :: "closure \<Rightarrow> project list \<Rightarrow> detail \<Rightarrow> nat" where
  "renders cl [] s = 0"
| "renders cl (up # ups) s =
     (if rerenders cl up s then 1 else 0) + renders cl ups (tickBody cl up s)"

definition rerenders_pd :: "closure \<Rightarrow> project \<Rightarrow> detail \<Rightarrow> bool" where
  "rerenders_pd cl up s = (view (tickBody_pd cl up s) \<noteq> view s)"

fun renders_pd :: "closure \<Rightarrow> project list \<Rightarrow> detail \<Rightarrow> nat" where
  "renders_pd cl [] s = 0"
| "renders_pd cl (up # ups) s =
     (if rerenders_pd cl up s then 1 else 0) + renders_pd cl ups (tickBody_pd cl up s)"

fun ticks :: "closure \<Rightarrow> project list \<Rightarrow> detail \<Rightarrow> detail" where
  "ticks cl [] s = s"
| "ticks cl (up # ups) s = ticks cl ups (tickBody cl up s)"

fun ticks_pd :: "closure \<Rightarrow> project list \<Rightarrow> detail \<Rightarrow> detail" where
  "ticks_pd cl [] s = s"
| "ticks_pd cl (up # ups) s = ticks_pd cl ups (tickBody_pd cl up s)"

text \<open>
  The values a tick has for the three cells, read off the branches of the \<^verbatim>\<open>try\<close> block:
  the status always; a percentage on a match while processing, and 100 on completion; a
  step on every processing tick with a message, and on both terminal statuses.
\<close>

definition newProgress :: "project \<Rightarrow> nat option" where
  "newProgress up =
     (if project_status up = processing \<and> truthy (status_message up)
      then map_option fst (progressEntry (the (status_message up)))
      else if project_status up = completed then Some 100
      else None)"

definition newStep :: "project \<Rightarrow> jsstring option" where
  "newStep up =
     (if project_status up = processing \<and> truthy (status_message up)
      then (case progressEntry (the (status_message up)) of
              Some e \<Rightarrow> Some (snd e)
            | None \<Rightarrow> status_message up)
      else if project_status up = completed then Some (js ''Processing completed successfully!'')
      else if project_status up = failed
      then Some (if truthy (status_message up) then the (status_message up) else js ''Processing failed'')
      else None)"

definition stored :: "project \<Rightarrow> detail \<Rightarrow> bool" where
  "stored up s =
     (status s = Some (project_status up)
      \<and> (case newProgress up of None \<Rightarrow> True | Some n \<Rightarrow> progress s = n)
      \<and> (case newStep up of None \<Rightarrow> True | Some g \<Rightarrow> currentStep s = g))"

section \<open>The dashboard\<close>

text \<open>The dashboard adds one state cell: the progress shown per project id.\<close>

record dashboard = env +
  projectProgress :: "nat \<rightharpoonup> nat \<times> jsstring"

text \<open>The callback of the dashboard's timer: its handle and the projects it was created for.\<close>

record fleetClosure =
  fleet_interval :: nat
  processingProjects :: "project list"

text \<open>
  The polling effect of \<^verbatim>\<open>Dashboard\<close>, run on every change of \<^verbatim>\<open>projects\<close>: one timer for the
  projects that are processing or pending, none when there are no such projects. Its
  cleanup clears that timer before the effect runs again.
\<close>

definition pollingEffect :: "dashboard \<Rightarrow> fleetClosure option \<times> dashboard" where
  "pollingEffect s =
     (let pp = filter (\<lambda>p. project_status p = processing \<or> project_status p = pending) (projects s)
      in if length pp = 0 then (None, s)
         else (case setInterval s of
                 (t, s') \<Rightarrow> (Some \<lparr>fleet_interval = t, processingProjects = pp\<rparr>, s')))"

definition pollingCleanup :: "fleetClosure option \<Rightarrow> dashboard \<Rightarrow> dashboard" where
  "pollingCleanup c s = (case c of None \<Rightarrow> s | Some k \<Rightarrow> clearInterval (fleet_interval k) s)"

definition reconcile :: "fleetClosure option \<Rightarrow> dashboard \<Rightarrow> fleetClosure option \<times> dashboard" where
  "reconcile prev s = pollingEffect (pollingCleanup prev s)"

text \<open>The ids that the live callback fetches on each tick.\<close>

definition polled :: "fleetClosure option \<Rightarrow> nat set" where
  "polled c = (case c of None \<Rightarrow> {} | Some k \<Rightarrow> project_id ` set (processingProjects k))"

text \<open>
  One tick of the dashboard's timer; \<open>fetch i\<close> is how \<^verbatim>\<open>getProject(i)\<close> settled. A
  rejected request is caught next to the request and the project as known stands in for
  the answer, so \<^verbatim>\<open>Promise.all\<close> is always fulfilled and the outer \<^verbatim>\<open>catch\<close> with its console
  line is never entered.
\<close>

definition updatedProjects :: "project list \<Rightarrow> (nat \<Rightarrow> project promise) \<Rightarrow> project list" where
  "updatedProjects ps fetch =
     map (\<lambda>p. case fetch (project_id p) of Inr up \<Rightarrow> up | Inl e \<Rightarrow> p) ps"

text \<open>The entry that the loop over the answers computes for one project, if any.\<close>

definition entryOf :: "project \<Rightarrow> (nat \<times> jsstring) option" where
  "entryOf p = (if truthy (error_message p) then progressEntry (the (error_message p)) else None)"

definition progressData :: "project list \<Rightarrow> (nat \<rightharpoonup> nat \<times> jsstring)" where
  "progressData ups =
     foldl (\<lambda>m p. case entryOf p of Some e \<Rightarrow> m(project_id p \<mapsto> e) | None \<Rightarrow> m)
           Map.empty ups"

definition fleetTick :: "fleetClosure \<Rightarrow> (nat \<Rightarrow> project promise) \<Rightarrow> dashboard \<Rightarrow> dashboard" where
  "fleetTick c fetch s =
     s\<lparr>projectProgress := progressData (updatedProjects (processingProjects c) fetch)\<rparr>"

text \<open>
  A tick whose requests go through the API client: the response interceptor sees the
  answer to each request before the tick does, and passes it on as it is.
\<close>

definition fleetTickVia :: "fleetClosure \<Rightarrow> (nat \<Rightarrow> project promise) \<Rightarrow> dashboard \<Rightarrow> dashboard" where
  "fleetTickVia c raw s =
     fleetTick c raw
       (foldl (\<lambda>s' p. snd (responseInterceptor (raw (project_id p)) s')) s (processingProjects c))"

section \<open>Example states\<close>

text \<open>
  Concrete inputs for the evaluations below: the server's answer for project \<open>i\<close>; the
  project page of project 7 after its first fetch, with two projects in the store; the
  callback of a poller started by the effect of the first render, and the page with that
  poller running; the page of a job that failed at 40 percent; a client whose requests
  are all rejected with the same error; a client that answers with the listed project of
  the requested id and rejects every other request; an error with an HTTP status; a
  dashboard showing a list of projects.
\<close>

definition job :: "nat \<Rightarrow> status \<Rightarrow> jsstring option \<Rightarrow> project" where
  "job i st m = \<lparr>project_id = i, project_name = ''clip'', project_status = st,
                 status_message = m, error_message = m\<rparr>"

definition opened :: "status \<Rightarrow> detail" where
  "opened st =
     (mounted 7)\<lparr>projects := [job 7 st None, job 8 completed None],
                 localProject := Some (job 7 st None), status := Some st, loading := False\<rparr>"

definition firstCallback :: closure where
  "firstCallback = \<lparr>interval = 1, seen = renderOf (mounted 7)\<rparr>"

definition polling :: detail where
  "polling = snd (pollForUpdates (renderOf (mounted 7)) (opened processing))"

definition failedAt40 :: detail where
  "failedAt40 = (opened failed)\<lparr>progress := 40, currentStep := js ''out of memory''\<rparr>"

definition rejecting :: "apiError \<Rightarrow> nat \<Rightarrow> project promise" where
  "rejecting e i = Inl e"

definition httpError :: "nat \<Rightarrow> apiError" where
  "httpError n = \<lparr>response_status = Some n, response_detail = None, error_text = Some ''Request failed''\<rparr>"

definition answers :: "project list \<Rightarrow> nat \<Rightarrow> project promise" where
  "answers ps i =
     (case find (\<lambda>p. project_id p = i) ps of
        Some p \<Rightarrow> Inr p
      | None \<Rightarrow> Inl (httpError 404))"

definition shown :: "project list \<Rightarrow> dashboard" where
  "shown ps =
     \<lparr>projects = ps, currentProject = None, intervals = [], nextInterval = 1, consoleErrors = [],
      token = Some ''t'', href = ''/dashboard'', projectProgress = Map.empty\<rparr>"

section \<open>The progress pattern: what a match captures\<close>

lemma literal_append: "literal p (p @ s) = Some s"
  by (induction p) simp_all

lemma percent_not_digit: "js ''%: '' = 37 # js '': ''" "\<not> isDigit 37"
  by (simp_all add: js_def isDigit_def)

lemma takeWhile_digits:
  assumes "\<forall>c\<in>set ds. isDigit c"
  shows "takeWhile isDigit (ds @ js ''%: '' @ r) = ds"
    "dropWhile isDigit (ds @ js ''%: '' @ r) = js ''%: '' @ r"
  using assms by (simp_all add: percent_not_digit)

lemma takeWhile_line:
  assumes "\<forall>c\<in>set g. \<not> lineTerminator c" "rest = [] \<or> lineTerminator (hd rest)"
  shows "takeWhile (\<lambda>c. \<not> lineTerminator c) (g @ rest) = g"
proof (cases rest)
  case Nil
  with assms show ?thesis by simp
next
  case (Cons a as)
  with assms show ?thesis by simp
qed

lemma matchHere_pattern:
  assumes "ds \<noteq> []" "\<forall>c\<in>set ds. isDigit c" "g \<noteq> []" "\<forall>c\<in>set g. \<not> lineTerminator c"
    "rest = [] \<or> lineTerminator (hd rest)"
  shows "matchHere (js ''Progress '' @ ds @ js ''%: '' @ g @ rest) = Some (ds, g)"
proof -
  have a: "literal (js ''Progress '') (js ''Progress '' @ ds @ js ''%: '' @ g @ rest)
           = Some (ds @ js ''%: '' @ g @ rest)"
    by (rule literal_append)
  have b: "takeWhile isDigit (ds @ js ''%: '' @ g @ rest) = ds"
    "dropWhile isDigit (ds @ js ''%: '' @ g @ rest) = js ''%: '' @ g @ rest"
    by (rule takeWhile_digits[OF assms(2)])+
  have c: "literal (js ''%: '') (js ''%: '' @ g @ rest) = Some (g @ rest)"
    by (rule literal_append)
  have d: "takeWhile (\<lambda>c. \<not> lineTerminator c) (g @ rest) = g"
    by (rule takeWhile_line[OF assms(4,5)])
  show ?thesis
    unfolding matchHere_def a option.case Let_def b c d using assms(1,3) by simp
qed

lemma progressMatch_here: "matchHere s = Some m \<Longrightarrow> progressMatch s = Some m"
  by (cases s) (simp_all add: matchHere_def js_def)

lemma progressMatch_skip:
  "\<forall>k<length pre. matchHere (drop k (pre @ s)) = None \<Longrightarrow> progressMatch (pre @ s) = progressMatch s"
proof (induction pre)
  case Nil
  show ?case by simp
next
  case (Cons a pre)
  from Cons.prems have h0: "matchHere (a # pre @ s) = None" by force
  have "\<forall>k<length pre. matchHere (drop k (pre @ s)) = None"
  proof (intro allI impI)
    fix k assume "k < length pre"
    then have "Suc k < length (a # pre)" by simp
    with Cons.prems have "matchHere (drop (Suc k) ((a # pre) @ s)) = None" by blast
    then show "matchHere (drop k (pre @ s)) = None" by simp
  qed
  with Cons.IH have "progressMatch (pre @ s) = progressMatch s" .
  with h0 show ?case by simp
qed

text \<open>
  A run of at most fifteen digits has a decimal value below \<open>2^53\<close>, which
  \<open>parseInt\<close> returns as it is. A longer run may be rounded: the run
  \<^verbatim>\<open>9007199254740993\<close> gives the number 9007199254740992.
\<close>

lemma decimal_snoc: "decimal (ds @ [c]) = 10 * decimal ds + digitValue c"
  by (simp add: decimal_def)

lemma decimal_bound: "\<forall>c\<in>set ds. isDigit c \<Longrightarrow> decimal ds < 10 ^ length ds"
proof (induction ds rule: rev_induct)
  case Nil
  show ?case by (simp add: decimal_def)
next
  case (snoc c ds)
  then have "decimal ds < 10 ^ length ds" by simp
  moreover from snoc.prems have "digitValue c \<le> 9" by (auto simp: digitValue_def isDigit_def)
  ultimately show ?case by (simp add: decimal_snoc)
qed

lemma parseInt_exact:
  assumes "\<forall>c\<in>set ds. isDigit c" "length ds \<le> 15"
  shows "parseInt ds = decimal ds"
proof -
  have "decimal ds < 10 ^ length ds" by (rule decimal_bound[OF assms(1)])
  also have "(10::nat) ^ length ds \<le> 10 ^ 15" using assms(2) by (intro power_increasing) simp_all
  also have "(10::nat) ^ 15 < 2 ^ 53" by simp
  finally show ?thesis by (simp add: parseInt_def toDouble_def)
qed

lemma parseInt_rounds: "parseInt (js ''9007199254740993'') = 9007199254740992"
proof -
  have d: "decimal (js ''9007199254740993'') = 9007199254740993"
    by (simp add: decimal_def digitValue_def js_def)
  have b: "bitLength 9007199254740993 = 54"
    by (simp add: bitLength.simps)
  show ?thesis by (simp add: parseInt_def d toDouble_def b Let_def)
qed

text \<open>
  Claim C1, as the code has it. Take a message in which the pattern
  \<^verbatim>\<open>Progress <N>%: <description>\<close> occurs: \<open>N\<close> a non-empty run of at most fifteen decimal
  digits, the description the non-empty remainder of the line, and no earlier start
  position at which the pattern matches. Then the match captures exactly \<open>N\<close> and the
  description, and the entry built from it has as percent the decimal value of \<open>N\<close> and
  as step the description as it stands: white space around it is kept.
\<close>

theorem progress_pattern_captures:
  assumes "ds \<noteq> []" "\<forall>c\<in>set ds. isDigit c" "length ds \<le> 15"
    "g \<noteq> []" "\<forall>c\<in>set g. \<not> lineTerminator c"
    "rest = [] \<or> lineTerminator (hd rest)"
    "\<forall>k<length pre. matchHere (drop k (pre @ js ''Progress '' @ ds @ js ''%: '' @ g @ rest)) = None"
  shows "progressMatch (pre @ js ''Progress '' @ ds @ js ''%: '' @ g @ rest) = Some (ds, g)
       \<and> progressEntry (pre @ js ''Progress '' @ ds @ js ''%: '' @ g @ rest) = Some (decimal ds, g)"
proof -
  have "progressMatch (pre @ js ''Progress '' @ ds @ js ''%: '' @ g @ rest)
        = progressMatch (js ''Progress '' @ ds @ js ''%: '' @ g @ rest)"
    using assms(7) by (rule progressMatch_skip)
  also have "\<dots> = Some (ds, g)"
    by (rule progressMatch_here[OF matchHere_pattern[OF assms(1,2,4,5,6)]])
  finally show ?thesis by (simp add: progressEntry_def parseInt_exact[OF assms(2,3)])
qed

theorem progress_pattern_captures_witness:
  "progressMatch (js ''Job 7: Progress 42%:  Reading frames  '') = Some (js ''42'', js '' Reading frames  '')
   \<and> progressEntry (js ''Job 7: Progress 42%:  Reading frames  '') = Some (42, js '' Reading frames  '')"
proof -
  have d: "\<forall>c\<in>set (js ''42''). isDigit c" by (simp add: isDigit_def js_def)
  have g: "\<forall>c\<in>set (js '' Reading frames  ''). \<not> lineTerminator c"
    by (simp add: lineTerminator_def js_def)
  have k: "\<forall>k<length (js ''Job 7: ''). matchHere (drop k (js ''Job 7: '' @ js ''Progress '' @ js ''42''
            @ js ''%: '' @ js '' Reading frames  '' @ [])) = None"
    by (simp add: All_less_Suc matchHere_def js_def)
  have p: "decimal (js ''42'') = 42" by (simp add: decimal_def digitValue_def js_def)
  have n: "js ''42'' \<noteq> []" "js '' Reading frames  '' \<noteq> []" "length (js ''42'') \<le> 15"
    by (simp_all add: js_def)
  have m: "js ''Job 7: '' @ js ''Progress '' @ js ''42'' @ js ''%: '' @ js '' Reading frames  '' @ []
           = js ''Job 7: Progress 42%:  Reading frames  ''"
    by (simp add: js_def)
  show ?thesis
    using progress_pattern_captures[of "js ''42''" "js '' Reading frames  ''" "[]" "js ''Job 7: ''",
        OF n(1) d n(3) n(2) g _ k] p
    unfolding m by simp
qed

text \<open>
  Claim C1 as stated asks for the step trimmed of surrounding white space. A description
  that ends in a blank is stored with the blank.
\<close>

theorem progress_step_not_trimmed:
  "progressEntry (js ''Progress 10%: Initializing '') = Some (10, js ''Initializing '')
   \<and> progressEntry (js ''Progress 10%: Initializing '') \<noteq> Some (10, trimmed (js ''Initializing ''))"
proof -
  have m: "progressMatch (js ''Progress 10%: Initializing '') = Some (js ''10'', js ''Initializing '')"
    by (simp add: matchHere_def isDigit_def lineTerminator_def js_def)
  have d: "\<forall>c\<in>set (js ''10''). isDigit c" "length (js ''10'') \<le> 15"
    by (simp_all add: isDigit_def js_def)
  have p: "parseInt (js ''10'') = 10"
    using parseInt_exact[OF d] by (simp add: decimal_def digitValue_def js_def)
  have t: "trimmed (js ''Initializing '') = js ''Initializing''"
    by (simp add: trimmed_def whiteSpace_def js_def)
  have n: "js ''Initializing '' \<noteq> js ''Initializing''" by (simp add: js_def)
  show ?thesis using n by (simp add: progressEntry_def m p t)
qed

section \<open>What one tick writes\<close>

text \<open>
  Each of the three statements of the tick writes a fixed set of fields; everything else
  in the state is left as it was.
\<close>

lemma statusUpdate_eq:
  "statusUpdate cl up s =
     s\<lparr>status := (if Some (project_status up) \<noteq> seen_status (seen cl)
                   then Some (project_status up) else status s)\<rparr>"
  by (simp add: statusUpdate_def)

lemma progressUpdate_eq:
  "progressUpdate cl up s =
     s\<lparr>progress :=
          (if project_status up = processing \<and> truthy (status_message up) then
             (case progressMatch (the (status_message up)) of
                Some (ds, g) \<Rightarrow> if parseInt ds \<noteq> seen_progress (seen cl) then parseInt ds else progress s
              | None \<Rightarrow> progress s)
           else progress s),
        currentStep :=
          (if project_status up = processing \<and> truthy (status_message up) then
             (case progressMatch (the (status_message up)) of
                Some (ds, g) \<Rightarrow> if g \<noteq> seen_currentStep (seen cl) then g else currentStep s
              | None \<Rightarrow> if the (status_message up) \<noteq> seen_currentStep (seen cl)
                        then the (status_message up) else currentStep s)
           else currentStep s)\<rparr>"
  by (simp add: progressUpdate_def Let_def split: option.splits prod.splits)

lemma stopIfComplete_eq:
  "stopIfComplete cl up s =
     s\<lparr>intervals := (if project_status up = completed \<or> project_status up = failed
                      then removeAll (interval cl) (intervals s) else intervals s),
        progress := (if project_status up = completed then 100 else progress s),
        currentStep :=
          (if project_status up = completed then js ''Processing completed successfully!''
           else if project_status up = failed then
             (if truthy (status_message up) then the (status_message up) else js ''Processing failed'')
           else currentStep s),
        pollingIntervalRef := (if project_status up = completed \<or> project_status up = failed
                               then None else pollingIntervalRef s)\<rparr>"
  by (cases "project_status up") (simp_all add: stopIfComplete_def Let_def clearInterval_def)

lemmas tick_eqs = tickBody_def statusUpdate_eq progressUpdate_eq stopIfComplete_eq

lemma tickBody_frame:
  "projects (tickBody cl up s) = projects s"
  "currentProject (tickBody cl up s) = currentProject s"
  "localProject (tickBody cl up s) = localProject s"
  "routeId (tickBody cl up s) = routeId s"
  "consoleErrors (tickBody cl up s) = consoleErrors s"
  "token (tickBody cl up s) = token s"
  "href (tickBody cl up s) = href s"
  by (simp_all add: tick_eqs)

lemma tickBody_status:
  "status (tickBody cl up s) =
     (if Some (project_status up) \<noteq> seen_status (seen cl) then Some (project_status up) else status s)"
  by (simp add: tick_eqs)

lemma tickBody_intervals:
  "intervals (tickBody cl up s) =
     (if project_status up = completed \<or> project_status up = failed
      then removeAll (interval cl) (intervals s) else intervals s)"
  by (simp add: tick_eqs)

lemma tickBody_ref:
  "pollingIntervalRef (tickBody cl up s) =
     (if project_status up = completed \<or> project_status up = failed
      then None else pollingIntervalRef s)"
  by (simp add: tick_eqs)

lemma progressUpdate_cong:
  "progress s = progress s' \<Longrightarrow> progress (progressUpdate cl up s) = progress (progressUpdate cl up s')"
  "currentStep s = currentStep s' \<Longrightarrow> currentStep (progressUpdate cl up s) = currentStep (progressUpdate cl up s')"
  by (simp_all add: progressUpdate_eq split: option.splits prod.splits)

lemma progressUpdate_statusUpdate:
  "progress (progressUpdate cl up (statusUpdate cl up s)) = progress (progressUpdate cl up s)"
  "currentStep (progressUpdate cl up (statusUpdate cl up s)) = currentStep (progressUpdate cl up s)"
  by (rule progressUpdate_cong, simp add: statusUpdate_eq)+

lemma tickBody_progress:
  "progress (tickBody cl up s) =
     (if project_status up = completed then 100
      else progress (progressUpdate cl up s))"
  using progressUpdate_statusUpdate(1)[of cl up s]
  by (simp add: tickBody_def stopIfComplete_eq)

lemma tickBody_currentStep:
  "currentStep (tickBody cl up s) =
     (if project_status up = completed then js ''Processing completed successfully!''
      else if project_status up = failed then
        (if truthy (status_message up) then the (status_message up) else js ''Processing failed'')
      else currentStep (progressUpdate cl up s))"
  using progressUpdate_statusUpdate(2)[of cl up s]
  by (simp add: tickBody_def stopIfComplete_eq)

lemma view_tickBody_cong:
  assumes "view s = view s'"
  shows "view (tickBody cl up s) = view (tickBody cl up s')"
  using assms progressUpdate_cong[of s s' cl up]
  by (simp add: view_def tickBody_status tickBody_progress tickBody_currentStep)

lemma pollTick_fulfilled: "pollTick cl (Inr up) s = tickBody cl up s"
  by (simp add: pollTick_def tickTry_def)

lemma pollTick_rejected:
  "pollTick cl (Inl e) s = s\<lparr>consoleErrors := consoleErrors s @ [''Error polling for updates:'']\<rparr>"
  by (simp add: pollTick_def tickTry_def tickCatch_def)

lemma deleteProject_projects:
  "projects (deleteProject i s) = filter (\<lambda>p. project_id p \<noteq> i) (projects s)"
  by (simp add: deleteProject_def Let_def)

lemma handleDelete_projects:
  "projectToDelete s = Some p \<Longrightarrow>
   projects (handleDelete (Inr u) s) = filter (\<lambda>q. project_id q \<noteq> project_id p) (projects s)"
  by (simp add: handleDelete_def Let_def deleteProject_projects)

lemma handleDelete_view:
  "projectToDelete s = Some p \<Longrightarrow> view (handleDelete (Inr u) s) = view s"
  by (simp add: handleDelete_def Let_def view_def deleteProject_def)

lemmas example_defs = job_def opened_def firstCallback_def mounted_def renderOf_def
lemmas match_defs = matchHere_def isDigit_def lineTerminator_def parseInt_def toDouble_def
  decimal_def digitValue_def js_def

section \<open>Deletion and a late poll result\<close>

text \<open>
  Claim C2, as the code has it. Let the page have a project to delete and let the delete
  request succeed. A poll result for that project never writes the job store, so the store
  has no entry for the id after the deletion and a successful poll result, in either order
  of arrival. The tick has no check for the presence of the id: the late result is applied
  to status, progress and step exactly as it would have been without the deletion.
\<close>

theorem late_result_after_delete:
  assumes "projectToDelete s = Some p"
  shows "projects (pollTick cl (Inr up) s) = projects s
       \<and> project_id p \<notin> project_id ` set (projects (pollTick cl (Inr up) (handleDelete (Inr u) s)))
       \<and> project_id p \<notin> project_id ` set (projects (handleDelete (Inr u) (pollTick cl (Inr up) s)))
       \<and> view (pollTick cl (Inr up) (handleDelete (Inr u) s)) = view (pollTick cl (Inr up) s)"
proof -
  have p': "projectToDelete (tickBody cl up s) = Some p"
    using assms by (simp add: projectToDelete_def tickBody_frame cong: option.case_cong)
  have a: "project_id p \<notin> project_id ` set (projects (handleDelete (Inr u) s))"
    using handleDelete_projects[OF assms] by auto
  have b: "project_id p \<notin> project_id ` set (projects (handleDelete (Inr u) (tickBody cl up s)))"
    using handleDelete_projects[OF p'] by auto
  have c: "view (tickBody cl up (handleDelete (Inr u) s)) = view (tickBody cl up s)"
    by (rule view_tickBody_cong[OF handleDelete_view[OF assms]])
  show ?thesis using a b c by (simp add: pollTick_fulfilled tickBody_frame)
qed

theorem late_result_after_delete_witness:
  "projectToDelete (opened processing) = Some (job 7 processing None)
   \<and> 7 \<in> project_id ` set (projects (opened processing))
   \<and> 7 \<notin> project_id ` set (projects (pollTick firstCallback (Inr (job 7 processing (Some (js ''Progress 50%: Reading frames''))))
                                          (handleDelete (Inr ()) (opened processing))))
   \<and> 7 \<notin> project_id ` set (projects (handleDelete (Inr ())
            (pollTick firstCallback (Inr (job 7 processing (Some (js ''Progress 50%: Reading frames'')))) (opened processing))))"
proof -
  have h: "projectToDelete (opened processing) = Some (job 7 processing None)"
    by (simp add: projectToDelete_def example_defs)
  have i: "project_id (job 7 processing None) = 7" by (simp add: job_def)
  have j: "7 \<in> project_id ` set (projects (opened processing))"
    by (simp add: example_defs)
  show ?thesis
    using h j late_result_after_delete[OF h, of firstCallback
        "job 7 processing (Some (js ''Progress 50%: Reading frames''))" "()"]
    unfolding i by simp
qed

text \<open>
  Claim C2 as stated has the late result discarded and the progress state not updated. A
  result that arrives after the deletion moves the progress from 0 to 50 and sets the step.
\<close>

theorem late_result_is_applied:
  "view (handleDelete (Inr ()) (opened processing)) = (Some processing, 0, [])
   \<and> view (pollTick firstCallback (Inr (job 7 processing (Some (js ''Progress 50%: Reading frames''))))
             (handleDelete (Inr ()) (opened processing)))
       = (Some processing, 50, js ''Reading frames'')"
proof -
  have h: "projectToDelete (opened processing) = Some (job 7 processing None)"
    by (simp add: projectToDelete_def example_defs)
  have v: "view (opened processing) = (Some processing, 0, [])"
    by (simp add: view_def example_defs)
  have a: "view (handleDelete (Inr ()) (opened processing)) = (Some processing, 0, [])"
    using handleDelete_view[OF h] v by simp
  have "view (tickBody firstCallback (job 7 processing (Some (js ''Progress 50%: Reading frames'')))
               (handleDelete (Inr ()) (opened processing)))
        = view (tickBody firstCallback (job 7 processing (Some (js ''Progress 50%: Reading frames'')))
               (opened processing))"
    by (rule view_tickBody_cong[OF handleDelete_view[OF h]])
  also have "\<dots> = (Some processing, 50, js ''Reading frames'')"
    by (simp add: view_def tickBody_status tickBody_progress tickBody_currentStep progressUpdate_eq
        example_defs truthy_def match_defs)
  finally show ?thesis using a by (simp add: pollTick_fulfilled)
qed

section \<open>Starting the poller\<close>

lemma timersFresh_setInterval:
  "timersFresh s \<Longrightarrow> timersFresh (snd (setInterval s))"
  by (auto simp: timersFresh_def setInterval_def list_all_iff)

lemma pollForUpdates_eq:
  "pollForUpdates rnd s =
     (\<lparr>interval = nextInterval s, seen = rnd\<rparr>,
      s\<lparr>intervals := intervals s @ [nextInterval s], nextInterval := Suc (nextInterval s),
        pollingIntervalRef := Some (nextInterval s)\<rparr>)"
  by (simp add: pollForUpdates_def setInterval_def)

text \<open>
  Claim C3, as the code has it. \<^verbatim>\<open>pollForUpdates\<close> does not look at the stored handle: every
  start makes a new interval timer and stores its handle over the previous one. After two
  starts in a row two new timers are live, under different handles, and the stored handle
  is that of the second.
\<close>

theorem start_twice_two_timers:
  assumes "timersFresh s"
  shows "(case pollForUpdates r1 s of (c1, s1) \<Rightarrow>
            (case pollForUpdates r2 s1 of (c2, s2) \<Rightarrow>
               interval c1 \<noteq> interval c2
             \<and> interval c1 \<notin> set (intervals s) \<and> interval c2 \<notin> set (intervals s)
             \<and> fires c1 s2 \<and> fires c2 s2
             \<and> intervals s2 = intervals s @ [interval c1, interval c2]
             \<and> pollingIntervalRef s2 = Some (interval c2)
             \<and> timersFresh s2))"
  using assms
  by (auto simp: pollForUpdates_eq fires_def timersFresh_def list_all_iff)

theorem start_twice_two_timers_witness:
  "timersFresh (mounted 7)
   \<and> intervals (snd (pollForUpdates (renderOf (mounted 7))
                  (snd (pollForUpdates (renderOf (mounted 7)) (mounted 7))))) = [1, 2]"
proof -
  have h: "timersFresh (mounted 7)" by (simp add: timersFresh_def mounted_def)
  show ?thesis
    using h start_twice_two_timers[OF h, of "renderOf (mounted 7)" "renderOf (mounted 7)"]
    by (simp add: pollForUpdates_eq mounted_def split: prod.splits)
qed

text \<open>
  Claim C3 as stated has exactly one live timer after two starts. From a page without
  timers the second start leaves two.
\<close>

theorem second_start_adds_timer:
  "length (intervals (snd (pollForUpdates (renderOf (mounted 7))
                  (snd (pollForUpdates (renderOf (mounted 7)) (mounted 7)))))) = 2
   \<and> pollingIntervalRef (snd (pollForUpdates (renderOf (mounted 7))
                  (snd (pollForUpdates (renderOf (mounted 7)) (mounted 7))))) = Some 2"
  by (simp add: pollForUpdates_eq mounted_def)

section \<open>The tick that observes a terminal status\<close>

text \<open>
  A tick that observes \<open>completed\<close> or \<open>failed\<close> clears its own timer, so the callback
  does not fire again; any other tick leaves the timer as it is. In
  \<^verbatim>\<open>pages/ProjectDetail.tsx\<close> the observed status is always stored.
\<close>

lemma terminal_tick_stops:
  "project_status up = completed \<or> project_status up = failed \<Longrightarrow> \<not> fires cl (tickBody cl up s)"
  by (simp add: fires_def tickBody_intervals)

lemma nonterminal_tick_continues:
  "project_status up = pending \<or> project_status up = processing \<Longrightarrow>
   fires cl (tickBody cl up s) = fires cl s"
  by (auto simp: fires_def tickBody_intervals)

lemma tick_pd_shows_status: "status (tickBody_pd cl up s) = Some (project_status up)"
  by (simp add: tickBody_pd_def stopIfComplete_eq progressUpdate_pd_def statusUpdate_pd_def
      split: option.splits prod.splits)

lemma handleStartProcessing_failed:
  "handleStartProcessing (Inr ()) (opened failed) =
     (Some \<lparr>interval = 1, seen = \<lparr>seen_status = Some failed, seen_progress = 0, seen_currentStep = []\<rparr>\<rparr>,
      (opened failed)\<lparr>status := Some processing, progress := 0,
                      currentStep := js ''Starting Wav2Lip processing...'',
                      intervals := [1], nextInterval := 2, pollingIntervalRef := Some 1,
                      processing_flag := False\<rparr>)"
  by (simp add: handleStartProcessing_def projectToDelete_def pollForUpdates_eq example_defs)

text \<open>
  Claim C4 at a failing input, in \<^verbatim>\<open>unnamed/part_001\<close>. The page shows a failed job, where the
  start button is offered; processing is started again, so the status cell becomes
  \<open>processing\<close> and a poller starts whose callback still sees the status \<open>failed\<close> of
  the render that was clicked. When a tick then observes \<open>failed\<close>, the guard
  "only update status if it has changed" compares with the value seen and skips the
  write: the timer is cleared while the status cell still says \<open>processing\<close>.
\<close>

theorem retried_failure_not_shown:
  "(case handleStartProcessing (Inr ()) (opened failed) of
      (None, s1) \<Rightarrow> False
    | (Some cl, s1) \<Rightarrow>
        status s1 = Some processing \<and> fires cl s1
      \<and> status (pollTick cl (Inr (job 7 failed (Some (js ''out of memory'')))) s1) = Some processing
      \<and> \<not> fires cl (pollTick cl (Inr (job 7 failed (Some (js ''out of memory'')))) s1))"
  by (simp add: handleStartProcessing_failed pollTick_fulfilled tickBody_status tickBody_intervals
      fires_def job_def)

section \<open>Completion\<close>

lemma tickBody_pd_completed:
  "project_status up = completed \<Longrightarrow>
   progress (tickBody_pd cl up s) = 100
   \<and> currentStep (tickBody_pd cl up s) = js ''Processing completed successfully!''"
  by (simp add: tickBody_pd_def stopIfComplete_eq)

text \<open>
  Claim C6. A tick that observes the status \<open>completed\<close> leaves the progress at 100 and
  the step at the fixed text \<^verbatim>\<open>Processing completed successfully!\<close>, whatever the status
  message says, in both versions of the page.
\<close>

theorem completed_forces_100:
  assumes "project_status up = completed"
  shows "progress (pollTick cl (Inr up) s) = 100
       \<and> currentStep (pollTick cl (Inr up) s) = js ''Processing completed successfully!''
       \<and> progress (pollTick_pd cl (Inr up) s) = 100
       \<and> currentStep (pollTick_pd cl (Inr up) s) = js ''Processing completed successfully!''"
  using assms tickBody_pd_completed[OF assms]
  by (simp add: pollTick_fulfilled pollTick_pd_def tickBody_progress tickBody_currentStep)

theorem completed_forces_100_witness:
  "progress (pollTick firstCallback (Inr (job 7 completed (Some (js ''Progress 93%: Finalizing'')))) (opened processing)) = 100
   \<and> currentStep (pollTick firstCallback (Inr (job 7 completed (Some (js ''Progress 93%: Finalizing'')))) (opened processing))
       = js ''Processing completed successfully!''"
proof -
  have h: "project_status (job 7 completed (Some (js ''Progress 93%: Finalizing''))) = completed"
    by (simp add: job_def)
  show ?thesis using completed_forces_100[OF h, of firstCallback "opened processing"] by simp
qed

section \<open>Failure\<close>

lemma tickBody_failed:
  assumes "project_status up = failed"
  shows "progress (tickBody cl up s) = progress s"
    "currentStep (tickBody cl up s) =
       (if truthy (status_message up) then the (status_message up) else js ''Processing failed'')"
  using assms by (simp_all add: tickBody_progress tickBody_currentStep progressUpdate_eq)

lemma tickBody_pd_failed:
  assumes "project_status up = failed"
  shows "progress (tickBody_pd cl up s) = progress s"
    "currentStep (tickBody_pd cl up s) =
       (if truthy (status_message up) then the (status_message up) else js ''Processing failed'')"
  using assms
  by (simp_all add: tickBody_pd_def stopIfComplete_eq progressUpdate_pd_def statusUpdate_pd_def)

lemma ticks_failed:
  "\<forall>u\<in>set ups. project_status u = failed \<Longrightarrow> progress (ticks cl ups s) = progress s"
  by (induction ups arbitrary: s) (simp_all add: tickBody_failed)

lemma ticks_pd_failed:
  "\<forall>u\<in>set ups. project_status u = failed \<Longrightarrow> progress (ticks_pd cl ups s) = progress s"
  by (induction ups arbitrary: s) (simp_all add: tickBody_pd_failed)

text \<open>
  Claim C9. A tick that observes the status \<open>failed\<close> sets the step to the status
  message, or to \<^verbatim>\<open>Processing failed\<close> when there is none (an empty message counts as none),
  and leaves the percentage as it was; any number of such ticks in a row leaves the
  percentage as it was. Both versions of the page.
\<close>

theorem failed_freezes_percent:
  assumes "project_status up = failed"
  shows "progress (pollTick cl (Inr up) s) = progress s
       \<and> currentStep (pollTick cl (Inr up) s) =
           (if truthy (status_message up) then the (status_message up) else js ''Processing failed'')
       \<and> progress (pollTick_pd cl (Inr up) s) = progress s
       \<and> currentStep (pollTick_pd cl (Inr up) s) =
           (if truthy (status_message up) then the (status_message up) else js ''Processing failed'')
       \<and> ((\<forall>u\<in>set ups. project_status u = failed)
            \<longrightarrow> progress (ticks cl ups s) = progress s \<and> progress (ticks_pd cl ups s) = progress s)"
  using tickBody_failed[OF assms] tickBody_pd_failed[OF assms] ticks_failed ticks_pd_failed
  by (simp add: pollTick_fulfilled pollTick_pd_def)

theorem failed_freezes_percent_witness:
  "progress (pollTick firstCallback (Inr (job 7 failed (Some (js ''out of memory''))))
               ((opened processing)\<lparr>progress := 40\<rparr>)) = 40
   \<and> currentStep (pollTick firstCallback (Inr (job 7 failed (Some (js ''out of memory''))))
               ((opened processing)\<lparr>progress := 40\<rparr>)) = js ''out of memory''
   \<and> currentStep (pollTick firstCallback (Inr (job 7 failed None))
               ((opened processing)\<lparr>progress := 40\<rparr>)) = js ''Processing failed''
   \<and> progress (ticks firstCallback [job 7 failed None, job 7 failed (Some (js ''out of memory''))]
               ((opened processing)\<lparr>progress := 40\<rparr>)) = 40"
proof -
  let ?s = "(opened processing)\<lparr>progress := 40\<rparr>"
  have h1: "project_status (job 7 failed (Some (js ''out of memory''))) = failed" by (simp add: job_def)
  have h2: "project_status (job 7 failed None) = failed" by (simp add: job_def)
  have h3: "\<forall>u\<in>set [job 7 failed None, job 7 failed (Some (js ''out of memory''))]. project_status u = failed"
    by (simp add: job_def)
  have p: "progress ?s = 40" by simp
  have m: "status_message (job 7 failed (Some (js ''out of memory''))) = Some (js ''out of memory'')"
    "status_message (job 7 failed None) = None" by (simp_all add: job_def)
  from failed_freezes_percent[OF h1, of firstCallback ?s "[job 7 failed None, job 7 failed (Some (js ''out of memory''))]"]
    failed_freezes_percent[OF h2, of firstCallback ?s "[]"] h3 p m
  show ?thesis by (simp add: truthy_def js_def)
qed

section \<open>A 401 response\<close>

lemma interceptor_other:
  "response_status e \<noteq> Some 401 \<Longrightarrow> responseInterceptor (Inl e) s = (Inl e, s)"
  "responseInterceptor (Inr v) s = (Inr v, s)"
  by (simp_all add: responseInterceptor_def)



section \<open>The dashboard's tick\<close>

text \<open>
  What a tick of the dashboard stores depends on the answers to the requests for the ids
  of its projects and on nothing else; with distinct ids, and answers that carry the id
  that was asked for, the entry stored for a project is the one computed from its answer,
  or from the project as known when the request was rejected.
\<close>

lemma updatedProjects_nth:
  "i < length ps \<Longrightarrow>
   updatedProjects ps fetch ! i = (case fetch (project_id (ps ! i)) of Inr up \<Rightarrow> up | Inl e \<Rightarrow> ps ! i)"
  by (simp add: updatedProjects_def)

lemma updatedProjects_ids:
  assumes "\<forall>q\<in>set ps. \<forall>up. fetch (project_id q) = Inr up \<longrightarrow> project_id up = project_id q"
  shows "map project_id (updatedProjects ps fetch) = map project_id ps"
proof -
  have "project_id (case fetch (project_id q) of Inr up \<Rightarrow> up | Inl e \<Rightarrow> q) = project_id q"
    if "q \<in> set ps" for q
  proof (cases "fetch (project_id q)")
    case (Inl e)
    then show ?thesis by simp
  next
    case (Inr up)
    with assms that have "project_id up = project_id q" by blast
    with Inr show ?thesis by simp
  qed
  then show ?thesis by (simp add: updatedProjects_def)
qed

lemma updatedProjects_member:
  "p \<in> set ps \<Longrightarrow>
   (case fetch (project_id p) of Inr up \<Rightarrow> up | Inl e \<Rightarrow> p) \<in> set (updatedProjects ps fetch)"
  by (auto simp: updatedProjects_def)

lemma progressData_foldl_other:
  "i \<notin> project_id ` set ups \<Longrightarrow>
   foldl (\<lambda>m p. case entryOf p of Some e \<Rightarrow> m(project_id p \<mapsto> e) | None \<Rightarrow> m) m0 ups i = m0 i"
  by (induction ups arbitrary: m0) (auto split: option.splits)

lemma progressData_foldl_lookup:
  "distinct (map project_id ups) \<Longrightarrow> p \<in> set ups \<Longrightarrow> m0 (project_id p) = None \<Longrightarrow>
   foldl (\<lambda>m p. case entryOf p of Some e \<Rightarrow> m(project_id p \<mapsto> e) | None \<Rightarrow> m) m0 ups (project_id p)
     = entryOf p"
proof (induction ups arbitrary: m0)
  case Nil
  then show ?case by simp
next
  case (Cons q ups)
  show ?case
  proof (cases "p = q")
    case True
    from Cons.prems(1) have "project_id q \<notin> project_id ` set ups" by simp
    with True Cons.prems(3) show ?thesis
      by (simp add: progressData_foldl_other split: option.splits)
  next
    case False
    with Cons.prems have p: "p \<in> set ups" and ne: "project_id q \<noteq> project_id p" by auto
    have "(case entryOf q of Some e \<Rightarrow> m0(project_id q \<mapsto> e) | None \<Rightarrow> m0) (project_id p) = None"
      using ne Cons.prems(3) by (simp split: option.splits)
    with Cons.IH[OF _ p] Cons.prems(1) show ?thesis by simp
  qed
qed

lemma progressData_lookup:
  "distinct (map project_id ups) \<Longrightarrow> p \<in> set ups \<Longrightarrow> progressData ups (project_id p) = entryOf p"
  unfolding progressData_def by (rule progressData_foldl_lookup) simp_all

lemma fleetTick_entry:
  assumes "distinct (map project_id (processingProjects c))"
    and "\<forall>q\<in>set (processingProjects c). \<forall>up. fetch (project_id q) = Inr up \<longrightarrow> project_id up = project_id q"
    and "p \<in> set (processingProjects c)"
  shows "projectProgress (fleetTick c fetch d) (project_id p)
         = entryOf (case fetch (project_id p) of Inr up \<Rightarrow> up | Inl e \<Rightarrow> p)"
proof -
  let ?u = "case fetch (project_id p) of Inr up \<Rightarrow> up | Inl e \<Rightarrow> p"
  have i: "project_id ?u = project_id p"
  proof (cases "fetch (project_id p)")
    case (Inl e)
    then show ?thesis by simp
  next
    case (Inr up)
    with assms(2,3) have "project_id up = project_id p" by blast
    with Inr show ?thesis by simp
  qed
  have d: "distinct (map project_id (updatedProjects (processingProjects c) fetch))"
    using assms(1) updatedProjects_ids[OF assms(2)] by simp
  have m: "?u \<in> set (updatedProjects (processingProjects c) fetch)"
    by (rule updatedProjects_member[OF assms(3)])
  from progressData_lookup[OF d m] i show ?thesis by (simp add: fleetTick_def)
qed

lemma fleetTick_depends:
  assumes "\<forall>i\<in>polled (Some c). f i = g i"
  shows "fleetTick c f d = fleetTick c g d"
proof -
  have "updatedProjects (processingProjects c) f = updatedProjects (processingProjects c) g"
    using assms by (simp add: updatedProjects_def polled_def)
  then show ?thesis by (simp add: fleetTick_def)
qed

lemma interceptors_pass:
  "\<forall>p\<in>set ps. \<forall>e. raw (project_id p) = Inl e \<longrightarrow> response_status e \<noteq> Some 401 \<Longrightarrow>
   foldl (\<lambda>s' p. snd (responseInterceptor (raw (project_id p)) s')) s ps = s"
  by (induction ps arbitrary: s) (auto simp: responseInterceptor_def split: sum.splits)

lemma fleetTickVia_progress:
  "projectProgress (fleetTickVia c raw d) = projectProgress (fleetTick c raw d)"
  by (simp add: fleetTickVia_def fleetTick_def)

section \<open>A fetch that fails\<close>

lemma updatedProjects_rejecting: "updatedProjects ps (rejecting e) = ps"
  by (induction ps) (simp_all add: updatedProjects_def rejecting_def)

lemma pollTickVia_rejected:
  "response_status e \<noteq> Some 401 \<Longrightarrow>
   pollTickVia cl (Inl e) s = s\<lparr>consoleErrors := consoleErrors s @ [''Error polling for updates:'']\<rparr>"
  "response_status e \<noteq> Some 401 \<Longrightarrow>
   pollTickVia_pd cl (Inl e) s = s\<lparr>consoleErrors := consoleErrors s @ [''Error polling for updates:'']\<rparr>"
  by (simp_all add: pollTickVia_def pollTickVia_pd_def responseInterceptor_def pollTick_rejected
      pollTick_pd_def tickCatch_def)

lemma fleetTickVia_pass:
  assumes "\<forall>p\<in>set (processingProjects c). \<forall>e. raw (project_id p) = Inl e \<longrightarrow> response_status e \<noteq> Some 401"
  shows "fleetTickVia c raw d = fleetTick c raw d"
  unfolding fleetTickVia_def interceptors_pass[OF assms] ..

lemma fleetTick_env:
  "intervals (fleetTick c fetch d) = intervals d" "consoleErrors (fleetTick c fetch d) = consoleErrors d"
  by (simp_all add: fleetTick_def)

text \<open>
  Claim C5, as the code has it. Every request passes the response interceptor, which
  sends the window away on a 401; take a rejection with any other error. On the project
  page (both versions) the tick then writes one line to the console and changes nothing
  else: the timer stays live, the shown state is unchanged, and the callback returns
  normally. On the dashboard, a tick none of whose requests is answered with 401 clears no
  timer and writes nothing to the console; a rejected request is replaced, at its place in
  the list, by the project as already known, and (ids distinct, answers carrying the id
  asked for) the entry stored for that project is the one computed from the project as
  known.
\<close>

theorem rejected_fetch_keeps_polling:
  assumes "response_status e \<noteq> Some 401"
  shows "pollTickVia cl (Inl e) s = s\<lparr>consoleErrors := consoleErrors s @ [''Error polling for updates:'']\<rparr>
       \<and> pollTickVia_pd cl (Inl e) s = s\<lparr>consoleErrors := consoleErrors s @ [''Error polling for updates:'']\<rparr>
       \<and> fires cl (pollTickVia cl (Inl e) s) = fires cl s
       \<and> view (pollTickVia cl (Inl e) s) = view s
       \<and> ((\<forall>q\<in>set (processingProjects c). \<forall>e'. raw (project_id q) = Inl e' \<longrightarrow> response_status e' \<noteq> Some 401)
            \<longrightarrow> fleetTickVia c raw d = fleetTick c raw d
              \<and> intervals (fleetTickVia c raw d) = intervals d
              \<and> consoleErrors (fleetTickVia c raw d) = consoleErrors d)
       \<and> (i < length ps \<and> fetch (project_id (ps ! i)) = Inl e
            \<longrightarrow> updatedProjects ps fetch ! i = ps ! i)
       \<and> (distinct (map project_id (processingProjects c))
            \<and> (\<forall>q\<in>set (processingProjects c). \<forall>up. raw (project_id q) = Inr up \<longrightarrow> project_id up = project_id q)
            \<and> p \<in> set (processingProjects c) \<and> raw (project_id p) = Inl e
            \<longrightarrow> projectProgress (fleetTickVia c raw d) (project_id p) = entryOf p)"
proof -
  have a: "pollTickVia cl (Inl e) s = s\<lparr>consoleErrors := consoleErrors s @ [''Error polling for updates:'']\<rparr>"
    "pollTickVia_pd cl (Inl e) s = s\<lparr>consoleErrors := consoleErrors s @ [''Error polling for updates:'']\<rparr>"
    by (rule pollTickVia_rejected[OF assms])+
  have b: "fires cl (pollTickVia cl (Inl e) s) = fires cl s" "view (pollTickVia cl (Inl e) s) = view s"
    unfolding a by (simp_all add: fires_def view_def)
  have c: "fleetTickVia c raw d = fleetTick c raw d
              \<and> intervals (fleetTickVia c raw d) = intervals d
              \<and> consoleErrors (fleetTickVia c raw d) = consoleErrors d"
    if "\<forall>q\<in>set (processingProjects c). \<forall>e'. raw (project_id q) = Inl e' \<longrightarrow> response_status e' \<noteq> Some 401"
    using fleetTickVia_pass[OF that] by (simp add: fleetTick_env)
  have d: "updatedProjects ps fetch ! i = ps ! i"
    if "i < length ps" "fetch (project_id (ps ! i)) = Inl e"
    using that by (simp add: updatedProjects_nth)
  have f: "projectProgress (fleetTickVia c raw d) (project_id p) = entryOf p"
    if "distinct (map project_id (processingProjects c))"
      "\<forall>q\<in>set (processingProjects c). \<forall>up. raw (project_id q) = Inr up \<longrightarrow> project_id up = project_id q"
      "p \<in> set (processingProjects c)" "raw (project_id p) = Inl e"
    using fleetTick_entry[OF that(1,2,3), of d] that(4) by (simp add: fleetTickVia_progress)
  show ?thesis using a b c d f by blast
qed

theorem rejected_fetch_keeps_polling_witness:
  "response_status (httpError 500) \<noteq> Some 401
   \<and> fires firstCallback polling
   \<and> fires firstCallback (pollTickVia firstCallback (Inl (httpError 500)) polling)
   \<and> consoleErrors (pollTickVia firstCallback (Inl (httpError 500)) polling) = [''Error polling for updates:'']
   \<and> updatedProjects [job 1 processing (Some (js ''Progress 10%: a'')), job 2 pending None]
        (answers [job 2 processing (Some (js ''Progress 20%: b''))]) ! 0
       = job 1 processing (Some (js ''Progress 10%: a''))
   \<and> projectProgress
        (fleetTickVia \<lparr>fleet_interval = 1,
                        processingProjects = [job 1 processing (Some (js ''Progress 10%: a'')),
                                              job 2 pending None]\<rparr>
           (answers [job 2 processing (Some (js ''Progress 20%: b''))])
           (shown [job 1 processing (Some (js ''Progress 10%: a'')), job 2 pending None])) 1
       = Some (10, js ''a'')"
proof -
  let ?p = "job 1 processing (Some (js ''Progress 10%: a''))"
  let ?ps = "[?p, job 2 pending None]"
  let ?f = "answers [job 2 processing (Some (js ''Progress 20%: b''))]"
  let ?k = "\<lparr>fleet_interval = 1, processingProjects = ?ps\<rparr>"
  have h: "response_status (httpError 500) \<noteq> Some 401" by (simp add: httpError_def)
  have t: "fires firstCallback polling" "consoleErrors polling = []"
    by (simp_all add: polling_def pollForUpdates_eq fires_def example_defs)
  have i1: "project_id ?p = 1" by (simp add: job_def)
  have r: "?f (project_id (?ps ! 0)) = Inl (httpError 404)" "?f (project_id ?p) = Inl (httpError 404)"
    by (simp_all add: answers_def job_def)
  have h4: "response_status (httpError 404) \<noteq> Some 401" by (simp add: httpError_def)
  from rejected_fetch_keeps_polling[OF h, of firstCallback polling]
  have a: "fires firstCallback (pollTickVia firstCallback (Inl (httpError 500)) polling)"
    "consoleErrors (pollTickVia firstCallback (Inl (httpError 500)) polling) = [''Error polling for updates:'']"
    using t by (simp_all add: fires_def)
  note w = rejected_fetch_keeps_polling[OF h4, of firstCallback polling ?k ?f "shown ?ps" 0 ?ps ?f ?p]
  from w have w6: "0 < length ?ps \<and> ?f (project_id (?ps ! 0)) = Inl (httpError 404)
            \<longrightarrow> updatedProjects ?ps ?f ! 0 = ?ps ! 0"
    by (elim conjE)
  from w6 r(1) have b: "updatedProjects ?ps ?f ! 0 = ?p" by simp
  have d: "distinct (map project_id (processingProjects ?k))" by (simp add: job_def)
  have cr: "\<forall>q\<in>set (processingProjects ?k). \<forall>up. ?f (project_id q) = Inr up \<longrightarrow> project_id up = project_id q"
    by (simp add: answers_def job_def)
  have m: "?p \<in> set (processingProjects ?k)" by simp
  from w have w7: "distinct (map project_id (processingProjects ?k))
            \<and> (\<forall>q\<in>set (processingProjects ?k). \<forall>up. ?f (project_id q) = Inr up \<longrightarrow> project_id up = project_id q)
            \<and> ?p \<in> set (processingProjects ?k) \<and> ?f (project_id ?p) = Inl (httpError 404)
            \<longrightarrow> projectProgress (fleetTickVia ?k ?f (shown ?ps)) (project_id ?p) = entryOf ?p"
    by (elim conjE)
  from w7 d cr m r(2)
  have "projectProgress (fleetTickVia ?k ?f (shown ?ps)) (project_id ?p) = entryOf ?p" by blast
  moreover have "entryOf ?p = Some (10, js ''a'')"
    by (simp add: entryOf_def truthy_def job_def progressEntry_def match_defs)
  ultimately have c: "projectProgress (fleetTickVia ?k ?f (shown ?ps)) 1 = Some (10, js ''a'')"
    unfolding i1 by simp
  show ?thesis by (intro conjI h t(1) a b c)
qed

text \<open>
  Claim C5 as stated has every failed fetch logged. A dashboard tick whose only request is
  rejected with status 500 leaves the console empty.
\<close>

theorem dashboard_rejection_not_logged:
  "(case pollingEffect (shown [job 7 processing None]) of
      (None, d) \<Rightarrow> False
    | (Some c, d) \<Rightarrow> consoleErrors (fleetTickVia c (rejecting (httpError 500)) d) = [])"
  by (simp add: pollingEffect_def Let_def shown_def job_def setInterval_def fleetTickVia_def
      fleetTick_def responseInterceptor_def rejecting_def httpError_def)

section \<open>The dashboard's polling effect\<close>

lemma pollingCleanup_projects: "projects (pollingCleanup prev s) = projects s"
  by (cases prev) (simp_all add: pollingCleanup_def clearInterval_def)

lemma polled_pollingEffect:
  "polled (fst (pollingEffect s)) =
     project_id ` {p \<in> set (projects s). project_status p = processing \<or> project_status p = pending}"
  by (auto simp: pollingEffect_def Let_def polled_def setInterval_def filter_empty_conv)

lemma live_pollingEffect:
  "fst (pollingEffect s) = Some k \<Longrightarrow> fleet_interval k \<in> set (intervals (snd (pollingEffect s)))"
  by (auto simp: pollingEffect_def Let_def setInterval_def split: if_splits)

lemma closure_pollingEffect:
  "fst (pollingEffect s) = Some k \<Longrightarrow>
   processingProjects k =
     filter (\<lambda>p. project_status p = processing \<or> project_status p = pending) (projects s)"
  by (auto simp: pollingEffect_def Let_def setInterval_def split: if_splits)

lemma old_timer_cleared:
  assumes "fleet_interval k < nextInterval s"
  shows "fleet_interval k \<notin> set (intervals (snd (reconcile (Some k) s)))"
  using assms
  by (auto simp: reconcile_def pollingEffect_def Let_def setInterval_def pollingCleanup_def
      clearInterval_def)

text \<open>
  Claim C8. One run of the dashboard's polling effect (cleanup of the previous run
  included) over a job list with distinct ids polls exactly the ids of the jobs that are
  pending or processing, and no job that is completed or failed; when a callback was
  created its timer is live, and the timer of the previous run is not. The polled ids are
  the ids the callback asks for: a tick depends on the answers for no other id, and
  (answers carrying the id asked for) the entry stored for each pending or processing job
  is the one computed from the answer to its request, or from the job as known when the
  request was rejected. For the jobs A pending, B completed, C processing the polled ids
  are those of A and C, and an answer for C is stored under the id of C.
\<close>

theorem reconcile_polls_nonterminal:
  assumes "distinct (map project_id (projects s))"
  shows "polled (fst (reconcile prev s)) =
           project_id ` {p \<in> set (projects s).
                           project_status p = pending \<or> project_status p = processing}
       \<and> (\<forall>p\<in>set (projects s). project_status p = completed \<or> project_status p = failed
              \<longrightarrow> project_id p \<notin> polled (fst (reconcile prev s)))
       \<and> (\<forall>k. fst (reconcile prev s) = Some k
              \<longrightarrow> fleet_interval k \<in> set (intervals (snd (reconcile prev s))))
       \<and> (\<forall>k. prev = Some k \<and> fleet_interval k < nextInterval s
              \<longrightarrow> fleet_interval k \<notin> set (intervals (snd (reconcile prev s))))
       \<and> (\<forall>k. fst (reconcile prev s) = Some k \<and> (\<forall>i\<in>polled (fst (reconcile prev s)). f i = g i)
              \<longrightarrow> fleetTick k f d = fleetTick k g d)
       \<and> (\<forall>k. \<forall>p\<in>set (projects s).
              fst (reconcile prev s) = Some k
              \<and> (project_status p = pending \<or> project_status p = processing)
              \<and> (\<forall>q\<in>set (projects s). \<forall>up. f (project_id q) = Inr up \<longrightarrow> project_id up = project_id q)
              \<longrightarrow> projectProgress (fleetTick k f d) (project_id p)
                    = entryOf (case f (project_id p) of Inr up \<Rightarrow> up | Inl e \<Rightarrow> p))"
proof -
  have a: "polled (fst (reconcile prev s)) =
           project_id ` {p \<in> set (projects s).
                           project_status p = pending \<or> project_status p = processing}"
    unfolding reconcile_def polled_pollingEffect pollingCleanup_projects by auto
  have b: "project_id p \<notin> polled (fst (reconcile prev s))"
    if "p \<in> set (projects s)" "project_status p = completed \<or> project_status p = failed" for p
  proof
    assume "project_id p \<in> polled (fst (reconcile prev s))"
    with a obtain q where q: "q \<in> set (projects s)" "project_id q = project_id p"
      "project_status q = pending \<or> project_status q = processing" by auto
    from assms q(1,2) that(1) have "q = p" by (simp add: distinct_map inj_on_def)
    with q(3) that(2) show False by auto
  qed
  have c: "fleet_interval k \<in> set (intervals (snd (reconcile prev s)))"
    if "fst (reconcile prev s) = Some k" for k
    using that unfolding reconcile_def by (rule live_pollingEffect)
  have e: "fleetTick k f d = fleetTick k g d"
    if "fst (reconcile prev s) = Some k" "\<forall>i\<in>polled (fst (reconcile prev s)). f i = g i" for k
    using that by (intro fleetTick_depends) simp
  have pp: "processingProjects k =
              filter (\<lambda>p. project_status p = processing \<or> project_status p = pending) (projects s)"
    if "fst (reconcile prev s) = Some k" for k
    using closure_pollingEffect[of "pollingCleanup prev s" k] that
    by (simp add: reconcile_def pollingCleanup_projects)
  have h: "projectProgress (fleetTick k f d) (project_id p)
           = entryOf (case f (project_id p) of Inr up \<Rightarrow> up | Inl e \<Rightarrow> p)"
    if "p \<in> set (projects s)" "fst (reconcile prev s) = Some k"
      "project_status p = pending \<or> project_status p = processing"
      "\<forall>q\<in>set (projects s). \<forall>up. f (project_id q) = Inr up \<longrightarrow> project_id up = project_id q" for k p
  proof (rule fleetTick_entry)
    show "distinct (map project_id (processingProjects k))"
      unfolding pp[OF that(2)] using assms by (rule distinct_map_filter)
    show "\<forall>q\<in>set (processingProjects k). \<forall>up. f (project_id q) = Inr up \<longrightarrow> project_id up = project_id q"
    proof (intro ballI allI impI)
      fix q up
      assume q: "q \<in> set (processingProjects k)" and u: "f (project_id q) = Inr up"
      from q have "q \<in> set (projects s)" unfolding pp[OF that(2)] by simp
      with that(4) u show "project_id up = project_id q" by blast
    qed
    show "p \<in> set (processingProjects k)"
      unfolding pp[OF that(2)] using that(1,3) by auto
  qed
  show ?thesis
  proof (intro conjI)
    show "polled (fst (reconcile prev s)) =
           project_id ` {p \<in> set (projects s).
                           project_status p = pending \<or> project_status p = processing}"
      by (rule a)
    show "\<forall>p\<in>set (projects s). project_status p = completed \<or> project_status p = failed
              \<longrightarrow> project_id p \<notin> polled (fst (reconcile prev s))"
      using b by blast
    show "\<forall>k. fst (reconcile prev s) = Some k
              \<longrightarrow> fleet_interval k \<in> set (intervals (snd (reconcile prev s)))"
      using c by blast
    show "\<forall>k. prev = Some k \<and> fleet_interval k < nextInterval s
              \<longrightarrow> fleet_interval k \<notin> set (intervals (snd (reconcile prev s)))"
      using old_timer_cleared by blast
    show "\<forall>k. fst (reconcile prev s) = Some k \<and> (\<forall>i\<in>polled (fst (reconcile prev s)). f i = g i)
              \<longrightarrow> fleetTick k f d = fleetTick k g d"
      using e by blast
    show "\<forall>k. \<forall>p\<in>set (projects s).
              fst (reconcile prev s) = Some k
              \<and> (project_status p = pending \<or> project_status p = processing)
              \<and> (\<forall>q\<in>set (projects s). \<forall>up. f (project_id q) = Inr up \<longrightarrow> project_id up = project_id q)
              \<longrightarrow> projectProgress (fleetTick k f d) (project_id p)
                    = entryOf (case f (project_id p) of Inr up \<Rightarrow> up | Inl e \<Rightarrow> p)"
    proof (intro allI ballI impI)
      fix k p
      assume p: "p \<in> set (projects s)"
        and r: "fst (reconcile prev s) = Some k
              \<and> (project_status p = pending \<or> project_status p = processing)
              \<and> (\<forall>q\<in>set (projects s). \<forall>up. f (project_id q) = Inr up \<longrightarrow> project_id up = project_id q)"
      from r have r1: "fst (reconcile prev s) = Some k"
        and r2: "project_status p = pending \<or> project_status p = processing"
        and r3: "\<forall>q\<in>set (projects s). \<forall>up. f (project_id q) = Inr up \<longrightarrow> project_id up = project_id q"
        by (rule conjunct1, rule conjunct2[THEN conjunct1], rule conjunct2[THEN conjunct2])
      show "projectProgress (fleetTick k f d) (project_id p)
                    = entryOf (case f (project_id p) of Inr up \<Rightarrow> up | Inl e \<Rightarrow> p)"
        by (rule h[OF p r1 r2 r3])
    qed
  qed
qed

theorem reconcile_polls_nonterminal_witness:
  "distinct (map project_id (projects (shown [job 1 pending None, job 2 completed None, job 3 processing None])))
   \<and> polled (fst (reconcile None (shown [job 1 pending None, job 2 completed None, job 3 processing None])))
       = {1, 3}
   \<and> (case fst (reconcile None (shown [job 1 pending None, job 2 completed None, job 3 processing None])) of
         None \<Rightarrow> False
       | Some k \<Rightarrow>
           projectProgress
             (fleetTick k (answers [job 3 processing (Some (js ''Progress 10%: Initializing''))])
                (shown [job 1 pending None, job 2 completed None, job 3 processing None])) 3
           = Some (10, js ''Initializing''))"
proof -
  let ?s = "shown [job 1 pending None, job 2 completed None, job 3 processing None]"
  let ?f = "answers [job 3 processing (Some (js ''Progress 10%: Initializing''))]"
  let ?k = "\<lparr>fleet_interval = 1, processingProjects = [job 1 pending None, job 3 processing None]\<rparr>"
  have h: "distinct (map project_id (projects ?s))" by (simp add: shown_def job_def)
  have "{p \<in> set (projects ?s). project_status p = pending \<or> project_status p = processing}
        = set (filter (\<lambda>p. project_status p = pending \<or> project_status p = processing) (projects ?s))"
    by simp
  also have "\<dots> = {job 1 pending None, job 3 processing None}"
    by (simp add: shown_def job_def)
  finally have e: "project_id ` {p \<in> set (projects ?s).
                      project_status p = pending \<or> project_status p = processing} = {1, 3}"
    by (simp add: job_def)
  have k: "fst (reconcile None ?s) = Some ?k"
    by (simp add: reconcile_def pollingCleanup_def pollingEffect_def Let_def setInterval_def
        shown_def job_def)
  have p: "job 3 processing None \<in> set (projects ?s)" by (simp add: shown_def)
  have st: "project_status (job 3 processing None) = pending \<or> project_status (job 3 processing None) = processing"
    by (simp add: job_def)
  have cr: "\<forall>q\<in>set (projects ?s). \<forall>up. ?f (project_id q) = Inr up \<longrightarrow> project_id up = project_id q"
    by (simp add: shown_def answers_def job_def)
  note t = reconcile_polls_nonterminal[OF h, of None ?f ?f ?s]
  from t have t6: "\<forall>k. \<forall>p\<in>set (projects ?s).
              fst (reconcile None ?s) = Some k
              \<and> (project_status p = pending \<or> project_status p = processing)
              \<and> (\<forall>q\<in>set (projects ?s). \<forall>up. ?f (project_id q) = Inr up \<longrightarrow> project_id up = project_id q)
              \<longrightarrow> projectProgress (fleetTick k ?f ?s) (project_id p)
                    = entryOf (case ?f (project_id p) of Inr up \<Rightarrow> up | Inl e \<Rightarrow> p)"
    by (elim conjE)
  from t6 p k st cr
  have "projectProgress (fleetTick ?k ?f ?s) (project_id (job 3 processing None))
        = entryOf (case ?f (project_id (job 3 processing None)) of Inr up \<Rightarrow> up | Inl e \<Rightarrow> job 3 processing None)"
    by blast
  moreover have "project_id (job 3 processing None) = 3" by (simp add: job_def)
  moreover have "?f 3 = Inr (job 3 processing (Some (js ''Progress 10%: Initializing'')))"
    by (simp add: answers_def job_def)
  moreover have "entryOf (job 3 processing (Some (js ''Progress 10%: Initializing'')))
                 = Some (10, js ''Initializing'')"
    by (simp add: entryOf_def truthy_def job_def progressEntry_def match_defs)
  ultimately have r: "projectProgress (fleetTick ?k ?f ?s) 3 = Some (10, js ''Initializing'')"
    by simp
  from t e have pl: "polled (fst (reconcile None ?s)) = {1, 3}" by simp
  show ?thesis using h pl r unfolding k by simp
qed

section \<open>Unchanged data\<close>

text \<open>
  When the values that a tick has for the three cells are the values the cells hold, the
  tick changes none of them, in both versions of the page; and a second tick of the same
  callback with the same data changes nothing after the first.
\<close>

lemma stored_view:
  assumes "stored up s"
  shows "view (tickBody cl up s) = view s"
proof (cases "project_status up")
  case pending
  with assms show ?thesis
    by (simp add: view_def stored_def tickBody_status tickBody_progress tickBody_currentStep
        progressUpdate_eq)
next
  case processing
  show ?thesis
  proof (cases "truthy (status_message up)")
    case False
    with processing assms show ?thesis
      by (simp add: view_def stored_def tickBody_status tickBody_progress tickBody_currentStep
          progressUpdate_eq)
  next
    case True
    show ?thesis
    proof (cases "progressMatch (the (status_message up))")
      case None
      with True processing assms show ?thesis
        by (cases "status_message up")
          (simp_all add: view_def stored_def tickBody_status tickBody_progress tickBody_currentStep
            progressUpdate_eq newStep_def newProgress_def progressEntry_def truthy_def)
    next
      case (Some m)
      obtain ds g where m: "m = (ds, g)" by (cases m)
      from Some m True processing assms show ?thesis
        by (simp add: view_def stored_def tickBody_status tickBody_progress tickBody_currentStep
            progressUpdate_eq newStep_def newProgress_def progressEntry_def)
    qed
  qed
next
  case completed
  with assms show ?thesis
    by (simp add: view_def stored_def tickBody_status tickBody_progress tickBody_currentStep
        newStep_def newProgress_def)
next
  case failed
  with assms show ?thesis
    by (simp add: view_def stored_def tickBody_status tickBody_progress tickBody_currentStep
        progressUpdate_eq newStep_def newProgress_def)
qed

lemma tick_twice_view:
  "view (tickBody cl up (tickBody cl up s)) = view (tickBody cl up s)"
proof -
  have a: "status (tickBody cl up (tickBody cl up s)) = status (tickBody cl up s)"
    by (simp add: tickBody_status)
  have p: "progress (progressUpdate cl up (tickBody cl up s)) = progress (progressUpdate cl up s)"
    if "project_status up \<noteq> completed"
    using that
    by (simp add: progressUpdate_eq tickBody_progress split: option.splits prod.splits)
  have b: "progress (tickBody cl up (tickBody cl up s)) = progress (tickBody cl up s)"
    using p by (simp add: tickBody_progress)
  have q: "currentStep (progressUpdate cl up (tickBody cl up s)) = currentStep (progressUpdate cl up s)"
    if "project_status up \<noteq> completed" "project_status up \<noteq> failed"
    using that
    by (simp add: progressUpdate_eq tickBody_currentStep split: option.splits prod.splits)
  have c: "currentStep (tickBody cl up (tickBody cl up s)) = currentStep (tickBody cl up s)"
    using q by (simp add: tickBody_currentStep)
  show ?thesis using a b c by (simp add: view_def)
qed

lemma stored_view_pd:
  assumes "stored up s"
  shows "view (tickBody_pd cl up s) = view s"
proof (cases "project_status up")
  case pending
  with assms show ?thesis
    by (simp add: view_def stored_def tickBody_pd_def stopIfComplete_eq progressUpdate_pd_def
        statusUpdate_pd_def)
next
  case processing
  show ?thesis
  proof (cases "truthy (status_message up)")
    case False
    with processing assms show ?thesis
      by (simp add: view_def stored_def tickBody_pd_def stopIfComplete_eq progressUpdate_pd_def
          statusUpdate_pd_def)
  next
    case True
    show ?thesis
    proof (cases "progressMatch (the (status_message up))")
      case None
      with True processing assms show ?thesis
        by (cases "status_message up")
          (simp_all add: view_def stored_def tickBody_pd_def stopIfComplete_eq progressUpdate_pd_def
            statusUpdate_pd_def newStep_def newProgress_def progressEntry_def truthy_def)
    next
      case (Some m)
      obtain ds g where m: "m = (ds, g)" by (cases m)
      from Some m True processing assms show ?thesis
        by (simp add: view_def stored_def tickBody_pd_def stopIfComplete_eq progressUpdate_pd_def
            statusUpdate_pd_def newStep_def newProgress_def progressEntry_def)
    qed
  qed
next
  case completed
  with assms show ?thesis
    by (simp add: view_def stored_def tickBody_pd_def stopIfComplete_eq progressUpdate_pd_def
        statusUpdate_pd_def newStep_def newProgress_def)
next
  case failed
  with assms show ?thesis
    by (simp add: view_def stored_def tickBody_pd_def stopIfComplete_eq progressUpdate_pd_def
        statusUpdate_pd_def newStep_def newProgress_def)
qed

lemma unchanged_update_keeps_view:
  "stored up s \<Longrightarrow> \<not> rerenders cl up s \<and> \<not> rerenders_pd cl up s"
  "\<not> rerenders cl up (tickBody cl up s)"
  "renders cl [up, up] s = renders cl [up] s"
  by (simp_all add: rerenders_def rerenders_pd_def stored_view stored_view_pd tick_twice_view)

lemma view_tickBody_match:
  assumes "project_status up = processing" "status_message up = Some m" "m \<noteq> []"
    "progressMatch m = Some (ds, g)" "view s = (st, n, x)"
  shows "view (tickBody cl up s) =
           (if Some processing \<noteq> seen_status (seen cl) then Some processing else st,
            if parseInt ds \<noteq> seen_progress (seen cl) then parseInt ds else n,
            if g \<noteq> seen_currentStep (seen cl) then g else x)"
  using assms
  by (simp add: view_def tickBody_status tickBody_progress tickBody_currentStep progressUpdate_eq
      truthy_def)

lemma view_tickBody_pd_match:
  assumes "project_status up = processing" "status_message up = Some m" "m \<noteq> []"
    "progressMatch m = Some (ds, g)"
  shows "view (tickBody_pd cl up s) = (Some processing, parseInt ds, g)"
  using assms
  by (simp add: view_def tickBody_pd_def stopIfComplete_eq progressUpdate_pd_def
      statusUpdate_pd_def truthy_def)

lemma handleStartProcessing_failedAt40:
  "handleStartProcessing (Inr ()) failedAt40 =
     (Some \<lparr>interval = 1,
            seen = \<lparr>seen_status = Some failed, seen_progress = 40,
                    seen_currentStep = js ''out of memory''\<rparr>\<rparr>,
      failedAt40\<lparr>status := Some processing, progress := 0,
                  currentStep := js ''Starting Wav2Lip processing...'',
                  intervals := [1], nextInterval := 2, pollingIntervalRef := Some 1,
                  processing_flag := False\<rparr>)"
  by (simp add: handleStartProcessing_def projectToDelete_def pollForUpdates_eq failedAt40_def
      example_defs)

text \<open>
  Claim C7 at a failing input, in \<^verbatim>\<open>unnamed/part_001\<close>. The guards "only update if values
  have changed" compare the new values with the values seen by the render that started the
  poller, not with the values the cells hold. The page shows a job that failed at 40
  percent; processing is started again, so the progress cell is set to 0 and the callback
  sees 40. A tick with 35 percent is stored. Two ticks in a row with 40 percent, which
  differs from the 35 in the cell, are then both skipped: no render at all, and the cell
  stays at 35. In \<^verbatim>\<open>pages/ProjectDetail.tsx\<close>, which writes without the guards, the same
  two ticks render exactly once and leave 40 in the cell.
\<close>

theorem stale_guard_skips_new_data:
  "(case handleStartProcessing (Inr ()) failedAt40 of
      (None, s1) \<Rightarrow> False
    | (Some cl, s1) \<Rightarrow>
        view (tickBody cl (job 7 processing (Some (js ''Progress 35%: Inference''))) s1)
          = (Some processing, 35, js ''Inference'')
      \<and> renders cl [job 7 processing (Some (js ''Progress 40%: Inference'')),
                     job 7 processing (Some (js ''Progress 40%: Inference''))]
           (tickBody cl (job 7 processing (Some (js ''Progress 35%: Inference''))) s1) = 0
      \<and> view (ticks cl [job 7 processing (Some (js ''Progress 40%: Inference'')),
                         job 7 processing (Some (js ''Progress 40%: Inference''))]
                 (tickBody cl (job 7 processing (Some (js ''Progress 35%: Inference''))) s1))
          = (Some processing, 35, js ''Inference'')
      \<and> renders_pd cl [job 7 processing (Some (js ''Progress 40%: Inference'')),
                        job 7 processing (Some (js ''Progress 40%: Inference''))]
           (tickBody_pd cl (job 7 processing (Some (js ''Progress 35%: Inference''))) s1) = 1
      \<and> view (ticks_pd cl [job 7 processing (Some (js ''Progress 40%: Inference'')),
                            job 7 processing (Some (js ''Progress 40%: Inference''))]
                 (tickBody_pd cl (job 7 processing (Some (js ''Progress 35%: Inference''))) s1))
          = (Some processing, 40, js ''Inference''))"
proof -
  let ?cl = "\<lparr>interval = 1,
            seen = \<lparr>seen_status = Some failed, seen_progress = 40,
                    seen_currentStep = js ''out of memory''\<rparr>\<rparr>"
  let ?s1 = "failedAt40\<lparr>status := Some processing, progress := 0,
                  currentStep := js ''Starting Wav2Lip processing...'',
                  intervals := [1], nextInterval := 2, pollingIntervalRef := Some 1,
                  processing_flag := False\<rparr>"
  let ?u35 = "job 7 processing (Some (js ''Progress 35%: Inference''))"
  let ?u40 = "job 7 processing (Some (js ''Progress 40%: Inference''))"
  have j: "project_status ?u35 = processing" "status_message ?u35 = Some (js ''Progress 35%: Inference'')"
    "project_status ?u40 = processing" "status_message ?u40 = Some (js ''Progress 40%: Inference'')"
    by (simp_all add: job_def)
  have ne: "js ''Progress 35%: Inference'' \<noteq> []" "js ''Progress 40%: Inference'' \<noteq> []"
    "js ''Inference'' \<noteq> js ''out of memory''"
    by (simp_all add: js_def)
  have m35: "progressMatch (js ''Progress 35%: Inference'') = Some (js ''35'', js ''Inference'')"
    and m40: "progressMatch (js ''Progress 40%: Inference'') = Some (js ''40'', js ''Inference'')"
    by (simp_all add: matchHere_def isDigit_def lineTerminator_def js_def)
  have n: "parseInt (js ''35'') = 35" "parseInt (js ''40'') = 40"
    by (simp_all add: parseInt_def toDouble_def decimal_def digitValue_def js_def)
  have v1: "view ?s1 = (Some processing, 0, js ''Starting Wav2Lip processing...'')"
    by (simp add: view_def)
  have a: "view (tickBody ?cl ?u35 ?s1) = (Some processing, 35, js ''Inference'')"
    using view_tickBody_match[OF j(1,2) ne(1) m35 v1, of ?cl] n ne(3) by simp
  have step: "view (tickBody ?cl ?u40 s) = (Some processing, 35, js ''Inference'')"
    if "view s = (Some processing, 35, js ''Inference'')" for s
    using view_tickBody_match[OF j(3,4) ne(2) m40 that, of ?cl] n ne(3) by simp
  have b: "view (tickBody ?cl ?u40 (tickBody ?cl ?u35 ?s1)) = (Some processing, 35, js ''Inference'')"
    by (rule step[OF a])
  have c: "view (tickBody ?cl ?u40 (tickBody ?cl ?u40 (tickBody ?cl ?u35 ?s1)))
           = (Some processing, 35, js ''Inference'')"
    by (rule step[OF b])
  have r: "renders ?cl [?u40, ?u40] (tickBody ?cl ?u35 ?s1) = 0"
    unfolding renders.simps rerenders_def c b a by simp
  have a': "view (tickBody_pd ?cl ?u35 s) = (Some processing, 35, js ''Inference'')" for s
    using view_tickBody_pd_match[OF j(1,2) ne(1) m35, of ?cl s] n by simp
  have b': "view (tickBody_pd ?cl ?u40 s) = (Some processing, 40, js ''Inference'')" for s
    using view_tickBody_pd_match[OF j(3,4) ne(2) m40, of ?cl s] n by simp
  have r': "renders_pd ?cl [?u40, ?u40] (tickBody_pd ?cl ?u35 ?s1) = 1"
    unfolding renders_pd.simps rerenders_pd_def b' a' by simp
  have c2: "view (ticks ?cl [?u40, ?u40] (tickBody ?cl ?u35 ?s1)) = (Some processing, 35, js ''Inference'')"
    unfolding ticks.simps by (rule c)
  have d2: "view (ticks_pd ?cl [?u40, ?u40] (tickBody_pd ?cl ?u35 ?s1))
            = (Some processing, 40, js ''Inference'')"
    unfolding ticks_pd.simps by (rule b')
  show ?thesis
    unfolding handleStartProcessing_failedAt40
    by (simp only: prod.case option.case a c2 r r' d2 simp_thms)
qed

end
